theory Spec2Isabelle
  imports Main "HOL-Library.AList" "HOL-Library.Sublist"
begin

section \<open>The Kinesis trigger of the serverless forwarder\<close>

text \<open>
  A shallow embedding of \<^verbatim>\<open>handlers/aws/kinesis_trigger.py\<close>: the continuation
  handler \<^verbatim>\<open>_handle_kinesis_continuation\<close> and the record handler
  \<^verbatim>\<open>_handle_kinesis_record\<close>.

  Conventions of the embedding.
  \<^item> A Python \<^verbatim>\<open>bytes\<close> value is a list of 8-bit characters. A Python \<^verbatim>\<open>str\<close> is
    represented by its UTF-8 encoding, again a list of 8-bit characters, so that
    \<^verbatim>\<open>bytes.decode("utf-8")\<close> is the strict validity check of the byte sequence followed
    by the identity.
  \<^item> Python integers are \<open>int\<close>; \<^verbatim>\<open>Optional[int]\<close> is \<open>int option\<close>.
  \<^item> Exceptions are values of the type \<open>error\<close>.
  \<^item> Functions of the repository that live in other modules (the ARN utilities, the
    storage layer) and the SQS client of botocore are parameters of the handlers.
  \<^item> Calls of the shared logger have no effect on any value modelled here and are left out.
\<close>

subsection \<open>Values and errors\<close>

type_synonym bytes = "char list"

datatype error =
    UnicodeDecodeError
  | AssertionError
  | KeyError string
  | TypeError
  | ExternalError string

text \<open>Continuation bytes of a multi-byte UTF-8 sequence: \<open>0x80 .. 0xBF\<close>.\<close>

definition in_range :: "nat \<Rightarrow> nat \<Rightarrow> char \<Rightarrow> bool" where
  "in_range lo hi c = (lo \<le> of_char c \<and> of_char c \<le> hi)"

definition cont :: "char \<Rightarrow> bool" where
  "cont c = in_range 0x80 0xBF c"

text \<open>
  The well-formed byte sequences of UTF-8, as the strict decoder of Python accepts them:
  no overlong forms, no surrogates (\<open>U+D800 .. U+DFFF\<close>), nothing above \<open>U+10FFFF\<close>,
  no truncated sequence.
\<close>

fun valid_utf8 :: "bytes \<Rightarrow> bool" where
  "valid_utf8 [] = True"
| "valid_utf8 (b # bs) =
     (if in_range 0x00 0x7F b then valid_utf8 bs
      else if in_range 0xC2 0xDF b then
        (case bs of c1 # r \<Rightarrow> cont c1 \<and> valid_utf8 r | _ \<Rightarrow> False)
      else if in_range 0xE0 0xEF b then
        (case bs of
           c1 # c2 # r \<Rightarrow>
             (if of_char b = (0xE0::nat) then in_range 0xA0 0xBF c1
              else if of_char b = (0xED::nat) then in_range 0x80 0x9F c1
              else cont c1) \<and> cont c2 \<and> valid_utf8 r
         | _ \<Rightarrow> False)
      else if in_range 0xF0 0xF4 b then
        (case bs of
           c1 # c2 # c3 # r \<Rightarrow>
             (if of_char b = (0xF0::nat) then in_range 0x90 0xBF c1
              else if of_char b = (0xF4::nat) then in_range 0x80 0x8F c1
              else cont c1) \<and> cont c2 \<and> cont c3 \<and> valid_utf8 r
         | _ \<Rightarrow> False)
      else False)"

declare valid_utf8.simps [simp del]

text \<open>\<^verbatim>\<open>data.decode("utf-8")\<close>: raises \<^verbatim>\<open>UnicodeDecodeError\<close> on an ill-formed sequence.\<close>

definition decode_utf8 :: "bytes \<Rightarrow> error + string" where
  "decode_utf8 bs = (if valid_utf8 bs then Inr bs else Inl UnicodeDecodeError)"

text \<open>\<^verbatim>\<open>str(n)\<close> for an integer: the decimal digits, most significant first, with a
  leading minus sign for a negative number.\<close>

definition digit_char :: "nat \<Rightarrow> char" where
  "digit_char d = ''0123456789'' ! d"

fun str_nat :: "nat \<Rightarrow> string" where
  "str_nat n = (if n < 10 then [digit_char n] else str_nat (n div 10) @ [digit_char (n mod 10)])"

declare str_nat.simps [simp del]

definition str_int :: "int \<Rightarrow> string" where
  "str_int i = (if i < 0 then CHR ''-'' # str_nat (nat (- i)) else str_nat (nat i))"

subsection \<open>Kinesis records\<close>

text \<open>
  One entry of \<^verbatim>\<open>event["Records"]\<close>: the dictionary
  \<^verbatim>\<open>{"kinesis": {"data": ..., "sequenceNumber": ...}, "eventSourceARN": ...}\<close>.
\<close>

record kinesis_payload =
  data :: bytes
  sequenceNumber :: string

record kinesis_record =
  kinesis :: kinesis_payload
  eventSourceARN :: string

record kinesis_event =
  Records :: "kinesis_record list"

subsection \<open>The continuation handler\<close>

text \<open>One entry of \<^verbatim>\<open>MessageAttributes\<close>.\<close>

record message_attribute =
  StringValue :: string
  DataType :: string

text \<open>The keyword arguments of \<^verbatim>\<open>sqs_client.send_message\<close>.\<close>

record send_message_request =
  QueueUrl :: string
  MessageBody :: string
  MessageAttributes :: "string \<rightharpoonup> message_attribute"

text \<open>
  The SQS client is a state \<open>'s\<close> with one operation, a parameter of the handler:
  \<open>send_message req s\<close> returns the exception it raised, if any, and the state after the call.
  The utility \<^verbatim>\<open>get_kinesis_stream_name_type_and_region_from_arn\<close> is a parameter too; it
  returns the triple (stream type, stream name, region) or raises.
\<close>

type_synonym 's sqs_send = "send_message_request \<Rightarrow> 's \<Rightarrow> error option \<times> 's"

type_synonym arn_parser = "string \<Rightarrow> error + (string \<times> string \<times> string)"

text \<open>Lines 38--53: the attributes of the continuation message.\<close>

definition message_attributes_of ::
  "string \<Rightarrow> string \<Rightarrow> string \<Rightarrow> string \<Rightarrow> string \<Rightarrow> int option \<Rightarrow> int option
    \<Rightarrow> (string \<rightharpoonup> message_attribute)" where
  "message_attributes_of config_yaml stream_type stream_name sequence_number event_input_id
      last_ending_offset last_event_expanded_offset =
    (let message_attributes =
        [''config'' \<mapsto> \<lparr>StringValue = config_yaml, DataType = ''String''\<rparr>,
         ''originalStreamType'' \<mapsto> \<lparr>StringValue = stream_type, DataType = ''String''\<rparr>,
         ''originalStreamName'' \<mapsto> \<lparr>StringValue = stream_name, DataType = ''String''\<rparr>,
         ''originalSequenceNumber'' \<mapsto> \<lparr>StringValue = sequence_number, DataType = ''String''\<rparr>,
         ''originalEventSourceARN'' \<mapsto> \<lparr>StringValue = event_input_id, DataType = ''String''\<rparr>];
       message_attributes =
        (case last_ending_offset of
           None \<Rightarrow> message_attributes
         | Some v \<Rightarrow> message_attributes(''originalLastEndingOffset'' \<mapsto>
             \<lparr>StringValue = str_int v, DataType = ''Number''\<rparr>));
       message_attributes =
        (case last_event_expanded_offset of
           None \<Rightarrow> message_attributes
         | Some v \<Rightarrow> message_attributes(''originalLastEventExpandedOffset'' \<mapsto>
             \<lparr>StringValue = str_int v, DataType = ''Number''\<rparr>))
     in message_attributes)"

text \<open>
  \<^verbatim>\<open>_handle_kinesis_continuation\<close>. The function returns \<^verbatim>\<open>None\<close>; the model returns
  the exception that ended the call, if any, and the state of the SQS client after it.
\<close>

definition handle_kinesis_continuation ::
  "'s sqs_send \<Rightarrow> arn_parser \<Rightarrow> 's \<Rightarrow> string \<Rightarrow> int option \<Rightarrow> int option
    \<Rightarrow> kinesis_record \<Rightarrow> string \<Rightarrow> string \<Rightarrow> error option \<times> 's" where
  "handle_kinesis_continuation send_message get_kinesis_stream_name_type_and_region_from_arn
      sqs_client sqs_continuing_queue last_ending_offset last_event_expanded_offset
      kinesis_record event_input_id config_yaml =
    (let sequence_number = sequenceNumber (kinesis kinesis_record) in
     case get_kinesis_stream_name_type_and_region_from_arn event_input_id of
       Inl e \<Rightarrow> (Some e, sqs_client)
     | Inr (stream_type, stream_name, _) \<Rightarrow>
         (let message_attributes =
            message_attributes_of config_yaml stream_type stream_name sequence_number
              event_input_id last_ending_offset last_event_expanded_offset;
              kinesis_data = data (kinesis kinesis_record)
          in case decode_utf8 kinesis_data of
               Inl e \<Rightarrow> (Some e, sqs_client)
             | Inr message_body \<Rightarrow>
                 send_message
                   \<lparr>QueueUrl = sqs_continuing_queue,
                    MessageBody = message_body,
                    MessageAttributes = message_attributes\<rparr> sqs_client))"

text \<open>
  Instances of the parameters for concrete runs: a client that records every message it
  was asked to send, and the ARN utility of the repository for a well-formed stream ARN
  \<^verbatim>\<open>arn:aws:kinesis:<region>:<account>:<type>/<name>\<close>.
\<close>

definition recording_send :: "send_message_request list sqs_send" where
  "recording_send req sent = (None, sent @ [req])"

fun split_on :: "char \<Rightarrow> string \<Rightarrow> string list" where
  "split_on c [] = [[]]"
| "split_on c (x # xs) =
     (case split_on c xs of
        [] \<Rightarrow> [[]]
      | w # ws \<Rightarrow> if x = c then [] # w # ws else (x # w) # ws)"

definition arn_parts :: arn_parser where
  "arn_parts arn =
     (let arn_components = split_on CHR '':'' arn;
          stream_components = split_on CHR ''/'' (last arn_components)
      in if length arn_components < 4 \<or> length stream_components < 2
         then Inl (ExternalError ''IndexError'')
         else Inr (stream_components ! 0, stream_components ! 1, arn_components ! 3))"

definition account_id_of_arn :: "string \<Rightarrow> error + string" where
  "account_id_of_arn arn =
     (let arn_components = split_on CHR '':'' arn
      in if length arn_components < 5 then Inl (ExternalError ''IndexError'')
         else Inr (arn_components ! 4))"

definition example_arn :: string where
  "example_arn = ''arn:aws:kinesis:eu-central-1:123456789:stream/test-esf''"

definition example_record :: "bytes \<Rightarrow> kinesis_record" where
  "example_record payload =
     \<lparr>kinesis = \<lparr>data = payload, sequenceNumber = ''4954511524144582180062593244200961''\<rparr>,
      eventSourceARN = example_arn\<rparr>"

subsection \<open>The record handler\<close>

text \<open>
  Events are JSON-like values: strings, integers and dictionaries, a dictionary being the
  list of its items in insertion order. At this level a value has no identity, and
  \<^verbatim>\<open>deepcopy\<close> of the template is the template's value; object identity and aliasing are
  the subject of the store model further down.
\<close>

datatype json = JStr string | JInt int | JDict "(string \<times> json) list"

text \<open>\<^verbatim>\<open>d[k]\<close> and \<^verbatim>\<open>d[k] = v\<close>. Subscripting a string or an integer with a string key
  raises \<^verbatim>\<open>TypeError\<close>; a missing key raises \<^verbatim>\<open>KeyError\<close>. Assignment to an existing key
  keeps its position, a new key goes last.\<close>

fun getitem :: "json \<Rightarrow> string \<Rightarrow> error + json" where
  "getitem (JDict kvs) k = (case map_of kvs k of None \<Rightarrow> Inl (KeyError k) | Some v \<Rightarrow> Inr v)"
| "getitem (JStr s) k = Inl TypeError"
| "getitem (JInt i) k = Inl TypeError"

fun setitem :: "json \<Rightarrow> string \<Rightarrow> json \<Rightarrow> error + json" where
  "setitem (JDict kvs) k v = Inr (JDict (AList.update k v kvs))"
| "setitem (JStr s) k v = Inl TypeError"
| "setitem (JInt i) k v = Inl TypeError"

text \<open>Sequencing of steps that may raise.\<close>

definition bind :: "error + 'a \<Rightarrow> ('a \<Rightarrow> error + 'b) \<Rightarrow> error + 'b" where
  "bind m f = (case m of Inl e \<Rightarrow> Inl e | Inr x \<Rightarrow> f x)"

text \<open>\<^verbatim>\<open>d[p1]...[pn]\<close> and \<^verbatim>\<open>d[p1]...[pn][k] = v\<close>. The assignment changes the innermost
  dictionary in place; as a value, the outer dictionaries are rebuilt around it.\<close>

fun getpath :: "json \<Rightarrow> string list \<Rightarrow> error + json" where
  "getpath d [] = Inr d"
| "getpath d (p # ps) = bind (getitem d p) (\<lambda>sub. getpath sub ps)"

fun set_nested :: "json \<Rightarrow> string list \<Rightarrow> string \<Rightarrow> json \<Rightarrow> error + json" where
  "set_nested d [] k v = setitem d k v"
| "set_nested d (p # ps) k v =
     bind (getitem d p) (\<lambda>sub. bind (set_nested sub ps k v) (\<lambda>sub'. setitem d p sub'))"

text \<open>
  The storage layer. \<^verbatim>\<open>StorageFactory.create(storage_type="payload", ...)\<close> builds the
  payload storage from its arguments; \<^verbatim>\<open>get_by_lines\<close> is a parameter of the handler. It is
  a generator: it yields a finite sequence of tuples (log event, starting offset, ending
  offset, expanded offset) and then either stops or raises. The log event is asserted to
  be of type \<^verbatim>\<open>bytes\<close> by the handler.
\<close>

datatype log_event = Bytes bytes | NotBytes

type_synonym decoded_unit = "log_event \<times> int \<times> int \<times> int option"

record ('e, 'm) payload_storage =
  payload :: bytes
  json_content_type :: "string option"
  expand_event_list_from_field :: 'e
  multiline_processor :: "'m option"

definition StorageFactory_create ::
  "bytes \<Rightarrow> string option \<Rightarrow> 'e \<Rightarrow> 'm option \<Rightarrow> ('e, 'm) payload_storage" where
  "StorageFactory_create p jct expand multiline =
     \<lparr>payload = p, json_content_type = jct, expand_event_list_from_field = expand,
      multiline_processor = multiline\<rparr>"

text \<open>
  What the handler uses from other modules: the template \<^verbatim>\<open>_default_event\<close>, the two ARN
  utilities and \<^verbatim>\<open>get_by_lines\<close>; and the clock, \<open>utcnow k\<close> being the formatted result of
  the \<open>k\<close>-th call of \<^verbatim>\<open>datetime.datetime.utcnow().strftime(...)\<close> made by the handler.
\<close>

record ('e, 'm) deps =
  default_event :: json
  utcnow :: "nat \<Rightarrow> string"
  get_account_id_from_arn :: "string \<Rightarrow> error + string"
  get_kinesis_stream_name_type_and_region_from_arn :: arn_parser
  get_by_lines :: "('e, 'm) payload_storage \<Rightarrow> int \<Rightarrow> decoded_unit list \<times> error option"

type_synonym yielded = "json \<times> int \<times> int option \<times> nat"

text \<open>Lines 107--126, the body of the inner loop up to the \<^verbatim>\<open>yield\<close>: the event built for
  one decoded unit. The right-hand side of an assignment is evaluated before its target.\<close>

definition es_event_of ::
  "json \<Rightarrow> string \<Rightarrow> kinesis_record \<Rightarrow> string \<Rightarrow> string \<Rightarrow> string \<Rightarrow> string
    \<Rightarrow> log_event \<Rightarrow> int \<Rightarrow> error + json" where
  "es_event_of template timestamp kinesis_record stream_type stream_name aws_region account_id
      log_event starting_offset =
    (case log_event of
       NotBytes \<Rightarrow> Inl AssertionError
     | Bytes b \<Rightarrow>
        bind (setitem template ''@timestamp'' (JStr timestamp)) (\<lambda>es_event.
        bind (decode_utf8 b) (\<lambda>message.
        bind (set_nested es_event [''fields''] ''message'' (JStr message)) (\<lambda>es_event.
        bind (set_nested es_event [''fields'', ''log''] ''offset'' (JInt starting_offset))
          (\<lambda>es_event.
        bind (set_nested es_event [''fields'', ''log'', ''file''] ''path''
          (JStr (eventSourceARN kinesis_record))) (\<lambda>es_event.
        bind (set_nested es_event [''fields''] ''aws''
          (JDict [(''kinesis'', JDict
             [(''type'', JStr stream_type),
              (''name'', JStr stream_name),
              (''sequence_number'', JStr (sequenceNumber (kinesis kinesis_record)))])]))
          (\<lambda>es_event.
        bind (set_nested es_event [''fields'', ''cloud''] ''region'' (JStr aws_region))
          (\<lambda>es_event.
        set_nested es_event [''fields'', ''cloud''] ''account''
          (JDict [(''id'', JStr account_id)])))))))))"

text \<open>The inner loop over the decoded units of record number \<open>n\<close>; \<open>k\<close> counts the calls
  of the clock so far. The result is the list of the tuples yielded and the exception that
  ended the loop, if any.\<close>

fun handle_events ::
  "json \<Rightarrow> (nat \<Rightarrow> string) \<Rightarrow> kinesis_record \<Rightarrow> string \<Rightarrow> string \<Rightarrow> string \<Rightarrow> string
    \<Rightarrow> nat \<Rightarrow> nat \<Rightarrow> decoded_unit list \<Rightarrow> yielded list \<times> error option" where
  "handle_events template clock kinesis_record stream_type stream_name aws_region account_id
      n k [] = ([], None)"
| "handle_events template clock kinesis_record stream_type stream_name aws_region account_id
      n k ((log_event, starting_offset, ending_offset, event_expanded_offset) # events) =
     (case es_event_of template (clock k) kinesis_record stream_type stream_name aws_region
             account_id log_event starting_offset of
        Inl e \<Rightarrow> ([], Some e)
      | Inr es_event \<Rightarrow>
          (case handle_events template clock kinesis_record stream_type stream_name aws_region
                  account_id n (Suc k) events of
             (ys, err) \<Rightarrow> ((es_event, ending_offset, event_expanded_offset, n) # ys, err)))"

text \<open>Lines 90--128, the body of the outer loop for record number \<open>n\<close>.\<close>

definition handle_record ::
  "('e, 'm) deps \<Rightarrow> 'e \<Rightarrow> string option \<Rightarrow> 'm option \<Rightarrow> string \<Rightarrow> nat \<Rightarrow> nat
    \<Rightarrow> kinesis_record \<Rightarrow> yielded list \<times> error option" where
  "handle_record deps expand jct multiline account_id n k kinesis_record =
    (let storage = StorageFactory_create (data (kinesis kinesis_record)) jct expand multiline in
     case get_kinesis_stream_name_type_and_region_from_arn deps (eventSourceARN kinesis_record) of
       Inl e \<Rightarrow> ([], Some e)
     | Inr (stream_type, stream_name, aws_region) \<Rightarrow>
         (case get_by_lines deps storage 0 of
            (events, raised) \<Rightarrow>
              (case handle_events (default_event deps) (utcnow deps) kinesis_record stream_type
                      stream_name aws_region account_id n k events of
                 (ys, Some e) \<Rightarrow> (ys, Some e)
               | (ys, None) \<Rightarrow> (ys, raised))))"

text \<open>The outer loop, \<^verbatim>\<open>for kinesis_record_n, kinesis_record in enumerate(...)\<close>.\<close>

fun handle_records ::
  "('e, 'm) deps \<Rightarrow> 'e \<Rightarrow> string option \<Rightarrow> 'm option \<Rightarrow> string \<Rightarrow> nat \<Rightarrow> nat
    \<Rightarrow> kinesis_record list \<Rightarrow> yielded list \<times> error option" where
  "handle_records deps expand jct multiline account_id n k [] = ([], None)"
| "handle_records deps expand jct multiline account_id n k (r # rs) =
     (case handle_record deps expand jct multiline account_id n k r of
        (ys, Some e) \<Rightarrow> (ys, Some e)
      | (ys, None) \<Rightarrow>
          (case handle_records deps expand jct multiline account_id (Suc n) (k + length ys) rs of
             (ys', err) \<Rightarrow> (ys @ ys', err)))"

text \<open>\<^verbatim>\<open>_handle_kinesis_record\<close>: the tuples the generator yields, in order, and the
  exception that ends it, if any.\<close>

definition handle_kinesis_record ::
  "('e, 'm) deps \<Rightarrow> kinesis_event \<Rightarrow> string \<Rightarrow> 'e \<Rightarrow> string option \<Rightarrow> 'm option
    \<Rightarrow> yielded list \<times> error option" where
  "handle_kinesis_record deps event input_id expand jct multiline =
    (case get_account_id_from_arn deps input_id of
       Inl e \<Rightarrow> ([], Some e)
     | Inr account_id \<Rightarrow>
         handle_records deps expand jct multiline account_id 0 0 (Records event))"

subsection \<open>Objects with identity: the store\<close>

text \<open>
  To speak of aliasing, every dictionary object carries its address. The live objects are
  the module-level template \<^verbatim>\<open>_default_event\<close> and the documents yielded so far, which the
  caller holds; \<open>next_addr\<close> is the first address not yet allocated. An assignment
  \<^verbatim>\<open>x[k] = v\<close>, where \<^verbatim>\<open>x\<close> is the dictionary at address \<open>a\<close>, changes that dictionary
  wherever it occurs in a live object. The template is a finite tree of dictionaries as a
  dictionary display builds it; the memo of \<^verbatim>\<open>deepcopy\<close>, which matters for shared and
  cyclic objects only, is not modelled.
\<close>

type_synonym addr = nat

datatype pyobj = PStr string | PInt int | PDict addr "(string \<times> pyobj) list"

fun addrs :: "pyobj \<Rightarrow> addr set"
  and addrs_items :: "(string \<times> pyobj) list \<Rightarrow> addr set" where
  "addrs (PStr s) = {}"
| "addrs (PInt i) = {}"
| "addrs (PDict a kvs) = insert a (addrs_items kvs)"
| "addrs_items [] = {}"
| "addrs_items ((k, x) # kvs) = addrs x \<union> addrs_items kvs"

text \<open>The effect of \<^verbatim>\<open>x[k] = v\<close>, for the dictionary \<^verbatim>\<open>x\<close> at address \<open>a\<close>, on an object.\<close>

fun assign :: "addr \<Rightarrow> string \<Rightarrow> pyobj \<Rightarrow> pyobj \<Rightarrow> pyobj"
  and assign_items :: "addr \<Rightarrow> string \<Rightarrow> pyobj \<Rightarrow> (string \<times> pyobj) list
    \<Rightarrow> (string \<times> pyobj) list" where
  "assign a k v (PStr s) = PStr s"
| "assign a k v (PInt i) = PInt i"
| "assign a k v (PDict b kvs) =
     (if b = a then PDict b (AList.update k v (assign_items a k v kvs))
      else PDict b (assign_items a k v kvs))"
| "assign_items a k v [] = []"
| "assign_items a k v ((k', x) # kvs) = (k', assign a k v x) # assign_items a k v kvs"

text \<open>\<^verbatim>\<open>deepcopy(x)\<close> with \<open>n\<close> the first free address: the copy of a dictionary is allocated,
  then filled with the copies of its values, in order. The result is the copy and the
  first address free after it.\<close>

fun deepcopy :: "addr \<Rightarrow> pyobj \<Rightarrow> pyobj \<times> addr"
  and deepcopy_items :: "addr \<Rightarrow> (string \<times> pyobj) list \<Rightarrow> (string \<times> pyobj) list \<times> addr" where
  "deepcopy n (PStr s) = (PStr s, n)"
| "deepcopy n (PInt i) = (PInt i, n)"
| "deepcopy n (PDict a kvs) =
     (case deepcopy_items (Suc n) kvs of (kvs', n') \<Rightarrow> (PDict n kvs', n'))"
| "deepcopy_items n [] = ([], n)"
| "deepcopy_items n ((k, x) # kvs) =
     (case deepcopy n x of
        (x', n1) \<Rightarrow> (case deepcopy_items n1 kvs of (kvs', n2) \<Rightarrow> ((k, x') # kvs', n2)))"

fun pgetitem :: "pyobj \<Rightarrow> string \<Rightarrow> error + pyobj" where
  "pgetitem (PDict a kvs) k = (case map_of kvs k of None \<Rightarrow> Inl (KeyError k) | Some v \<Rightarrow> Inr v)"
| "pgetitem (PStr s) k = Inl TypeError"
| "pgetitem (PInt i) k = Inl TypeError"

fun pgetpath :: "pyobj \<Rightarrow> string list \<Rightarrow> error + pyobj" where
  "pgetpath d [] = Inr d"
| "pgetpath d (p # ps) = bind (pgetitem d p) (\<lambda>sub. pgetpath sub ps)"

record world =
  next_addr :: addr
  template_obj :: pyobj
  live :: "pyobj list"

text \<open>A statement runs in a world and ends with a value or an exception.\<close>

type_synonym 'a prog = "world \<Rightarrow> (error + 'a) \<times> world"

definition seq :: "'a prog \<Rightarrow> ('a \<Rightarrow> 'b prog) \<Rightarrow> 'b prog" where
  "seq m f w = (case m w of (Inl e, w') \<Rightarrow> (Inl e, w') | (Inr x, w') \<Rightarrow> f x w')"

definition lift :: "error + 'a \<Rightarrow> 'a prog" where
  "lift r w = (r, w)"

text \<open>\<^verbatim>\<open>deepcopy(_default_event)\<close>.\<close>

definition store_deepcopy_template :: "pyobj prog" where
  "store_deepcopy_template w =
     (case deepcopy (next_addr w) (template_obj w) of
        (es_event, n') \<Rightarrow> (Inr es_event, w\<lparr>next_addr := n'\<rparr>))"

text \<open>A dictionary display \<^verbatim>\<open>{k1: v1, ...}\<close>: a new object.\<close>

definition store_dict :: "(string \<times> pyobj) list \<Rightarrow> pyobj prog" where
  "store_dict kvs w = (Inr (PDict (next_addr w) kvs), w\<lparr>next_addr := Suc (next_addr w)\<rparr>)"

text \<open>\<^verbatim>\<open>es_event[p1]...[pn][k] = v\<close>: the target is looked up in \<^verbatim>\<open>es_event\<close>, the
  assignment acts on every live object; the value returned is \<^verbatim>\<open>es_event\<close> after it.\<close>

definition store_setitem :: "pyobj \<Rightarrow> string list \<Rightarrow> string \<Rightarrow> pyobj \<Rightarrow> pyobj prog" where
  "store_setitem es_event path k v w =
     (case pgetpath es_event path of
        Inl e \<Rightarrow> (Inl e, w)
      | Inr (PDict a kvs) \<Rightarrow>
          (Inr (assign a k v es_event),
           w\<lparr>template_obj := assign a k v (template_obj w), live := map (assign a k v) (live w)\<rparr>)
      | Inr (PStr s) \<Rightarrow> (Inl TypeError, w)
      | Inr (PInt i) \<Rightarrow> (Inl TypeError, w))"

text \<open>Lines 107--126 in the store.\<close>

definition store_es_event ::
  "string \<Rightarrow> kinesis_record \<Rightarrow> string \<Rightarrow> string \<Rightarrow> string \<Rightarrow> string \<Rightarrow> log_event \<Rightarrow> int
    \<Rightarrow> pyobj prog" where
  "store_es_event timestamp kinesis_record stream_type stream_name aws_region account_id
      log_event starting_offset =
    (case log_event of
       NotBytes \<Rightarrow> lift (Inl AssertionError)
     | Bytes b \<Rightarrow>
        seq store_deepcopy_template (\<lambda>es_event.
        seq (store_setitem es_event [] ''@timestamp'' (PStr timestamp)) (\<lambda>es_event.
        seq (lift (decode_utf8 b)) (\<lambda>message.
        seq (store_setitem es_event [''fields''] ''message'' (PStr message)) (\<lambda>es_event.
        seq (store_setitem es_event [''fields'', ''log''] ''offset'' (PInt starting_offset))
          (\<lambda>es_event.
        seq (store_setitem es_event [''fields'', ''log'', ''file''] ''path''
          (PStr (eventSourceARN kinesis_record))) (\<lambda>es_event.
        seq (store_dict
          [(''type'', PStr stream_type),
           (''name'', PStr stream_name),
           (''sequence_number'', PStr (sequenceNumber (kinesis kinesis_record)))]) (\<lambda>kinesis_dict.
        seq (store_dict [(''kinesis'', kinesis_dict)]) (\<lambda>aws.
        seq (store_setitem es_event [''fields''] ''aws'' aws) (\<lambda>es_event.
        seq (store_setitem es_event [''fields'', ''cloud''] ''region'' (PStr aws_region))
          (\<lambda>es_event.
        seq (store_dict [(''id'', PStr account_id)]) (\<lambda>account.
        store_setitem es_event [''fields'', ''cloud''] ''account'' account))))))))))))"

type_synonym store_yielded = "pyobj \<times> int \<times> int option \<times> nat"

text \<open>The loops in the store. A document that has been yielded stays live.\<close>

fun store_handle_events ::
  "(nat \<Rightarrow> string) \<Rightarrow> kinesis_record \<Rightarrow> string \<Rightarrow> string \<Rightarrow> string \<Rightarrow> string
    \<Rightarrow> nat \<Rightarrow> nat \<Rightarrow> decoded_unit list \<Rightarrow> world
    \<Rightarrow> (store_yielded list \<times> error option) \<times> world" where
  "store_handle_events clock kinesis_record stream_type stream_name aws_region account_id
      n k [] w = (([], None), w)"
| "store_handle_events clock kinesis_record stream_type stream_name aws_region account_id
      n k ((log_event, starting_offset, ending_offset, event_expanded_offset) # events) w =
     (case store_es_event (clock k) kinesis_record stream_type stream_name aws_region
             account_id log_event starting_offset w of
        (Inl e, w') \<Rightarrow> (([], Some e), w')
      | (Inr es_event, w') \<Rightarrow>
          (case store_handle_events clock kinesis_record stream_type stream_name aws_region
                  account_id n (Suc k) events (w'\<lparr>live := live w' @ [es_event]\<rparr>) of
             ((ys, err), w'') \<Rightarrow>
               (((es_event, ending_offset, event_expanded_offset, n) # ys, err), w'')))"

definition store_handle_record ::
  "('e, 'm) deps \<Rightarrow> 'e \<Rightarrow> string option \<Rightarrow> 'm option \<Rightarrow> string \<Rightarrow> nat \<Rightarrow> nat
    \<Rightarrow> kinesis_record \<Rightarrow> world \<Rightarrow> (store_yielded list \<times> error option) \<times> world" where
  "store_handle_record deps expand jct multiline account_id n k kinesis_record w =
    (let storage = StorageFactory_create (data (kinesis kinesis_record)) jct expand multiline in
     case get_kinesis_stream_name_type_and_region_from_arn deps (eventSourceARN kinesis_record) of
       Inl e \<Rightarrow> (([], Some e), w)
     | Inr (stream_type, stream_name, aws_region) \<Rightarrow>
         (case get_by_lines deps storage 0 of
            (events, raised) \<Rightarrow>
              (case store_handle_events (utcnow deps) kinesis_record stream_type stream_name
                      aws_region account_id n k events w of
                 ((ys, Some e), w') \<Rightarrow> ((ys, Some e), w')
               | ((ys, None), w') \<Rightarrow> ((ys, raised), w'))))"

fun store_handle_records ::
  "('e, 'm) deps \<Rightarrow> 'e \<Rightarrow> string option \<Rightarrow> 'm option \<Rightarrow> string \<Rightarrow> nat \<Rightarrow> nat
    \<Rightarrow> kinesis_record list \<Rightarrow> world \<Rightarrow> (store_yielded list \<times> error option) \<times> world" where
  "store_handle_records deps expand jct multiline account_id n k [] w = (([], None), w)"
| "store_handle_records deps expand jct multiline account_id n k (r # rs) w =
     (case store_handle_record deps expand jct multiline account_id n k r w of
        ((ys, Some e), w') \<Rightarrow> ((ys, Some e), w')
      | ((ys, None), w') \<Rightarrow>
          (case store_handle_records deps expand jct multiline account_id (Suc n)
                  (k + length ys) rs w' of
             ((ys', err), w'') \<Rightarrow> ((ys @ ys', err), w'')))"

text \<open>\<^verbatim>\<open>_handle_kinesis_record\<close> in the store: the tuples yielded, the exception that ended
  the generator, if any, and the world it leaves.\<close>

definition store_handle_kinesis_record ::
  "('e, 'm) deps \<Rightarrow> kinesis_event \<Rightarrow> string \<Rightarrow> 'e \<Rightarrow> string option \<Rightarrow> 'm option \<Rightarrow> world
    \<Rightarrow> (store_yielded list \<times> error option) \<times> world" where
  "store_handle_kinesis_record deps event input_id expand jct multiline w =
    (case get_account_id_from_arn deps input_id of
       Inl e \<Rightarrow> (([], Some e), w)
     | Inr account_id \<Rightarrow>
         store_handle_records deps expand jct multiline account_id 0 0 (Records event) w)"

text \<open>A world is well-formed when its live objects were allocated below \<open>next_addr\<close>.
  Documents are separated when no two of them have an address in common.\<close>

definition allocated :: "world \<Rightarrow> bool" where
  "allocated w \<longleftrightarrow>
     (\<forall>a \<in> addrs (template_obj w). a < next_addr w) \<and>
     (\<forall>d \<in> set (live w). \<forall>a \<in> addrs d. a < next_addr w)"

fun separated :: "pyobj list \<Rightarrow> bool" where
  "separated [] = True"
| "separated (d # ds) = ((\<forall>d' \<in> set ds. addrs d \<inter> addrs d' = {}) \<and> separated ds)"

text \<open>
  Notions for reasoning about the store. \<open>wp m Q E w\<close>: running \<open>m\<close> in \<open>w\<close> ends with a
  value and a world that satisfy \<open>Q\<close>, or with an exception and a world that satisfy \<open>E\<close>.
  \<open>frame w0 w\<close>: the world \<open>w\<close> has the template and the live documents of \<open>w0\<close>, and
  has allocated no less. \<open>fresh w0 w x\<close>: the dictionaries of \<open>x\<close> were allocated after \<open>w0\<close>.
  \<open>yields_ok w ys w'\<close>: a run from \<open>w\<close> to \<open>w'\<close> that yielded \<open>ys\<close> has left the template
  and the documents live in \<open>w\<close> as they were, and the documents it yielded are live in \<open>w'\<close>
  as they were yielded, were allocated during the run and are separated.
\<close>

definition wp ::
  "'a prog \<Rightarrow> ('a \<Rightarrow> world \<Rightarrow> bool) \<Rightarrow> (error \<Rightarrow> world \<Rightarrow> bool) \<Rightarrow> world \<Rightarrow> bool" where
  "wp m Q E w = (case m w of (Inl e, w') \<Rightarrow> E e w' | (Inr x, w') \<Rightarrow> Q x w')"

definition frame :: "world \<Rightarrow> world \<Rightarrow> bool" where
  "frame w0 w \<longleftrightarrow>
     template_obj w = template_obj w0 \<and> live w = live w0 \<and> next_addr w0 \<le> next_addr w"

definition fresh :: "world \<Rightarrow> world \<Rightarrow> pyobj \<Rightarrow> bool" where
  "fresh w0 w x \<longleftrightarrow> addrs x \<subseteq> {next_addr w0..<next_addr w}"

definition yields_ok :: "world \<Rightarrow> store_yielded list \<Rightarrow> world \<Rightarrow> bool" where
  "yields_ok w ys w' \<longleftrightarrow>
     template_obj w' = template_obj w \<and>
     live w' = live w @ map fst ys \<and>
     next_addr w \<le> next_addr w' \<and>
     allocated w' \<and>
     (\<forall>y \<in> set ys. addrs (fst y) \<subseteq> {next_addr w..<next_addr w'}) \<and>
     separated (map fst ys)"


text \<open>
  Instances for concrete runs. The template has the shape of \<^verbatim>\<open>_default_event\<close>. The example
  decoder splits the payload into lines, honours \<^verbatim>\<open>range_start\<close> by leaving out the units
  that end at or before it, and raises on a payload that contains a zero byte.
\<close>

definition example_default_event :: json where
  "example_default_event =
     JDict [(''@timestamp'', JStr ''''),
            (''fields'', JDict
               [(''message'', JStr ''''),
                (''log'', JDict [(''offset'', JInt 0), (''file'', JDict [(''path'', JStr '''')])]),
                (''aws'', JDict []),
                (''cloud'', JDict
                   [(''provider'', JStr ''aws''), (''region'', JStr ''''),
                    (''account'', JDict [])])]),
            (''meta'', JDict [])]"

fun by_lines :: "int \<Rightarrow> bytes list \<Rightarrow> decoded_unit list" where
  "by_lines off [] = []"
| "by_lines off (l # ls) =
     (Bytes l, off, off + int (length l) + 1, None) # by_lines (off + int (length l) + 1) ls"

definition example_get_by_lines ::
  "('e, 'm) payload_storage \<Rightarrow> int \<Rightarrow> decoded_unit list \<times> error option" where
  "example_get_by_lines storage range_start =
     (if CHR 0x00 \<in> set (payload storage) then ([], Some (ExternalError ''corrupt payload''))
      else (filter (\<lambda>(le, so, eo, xo). range_start < eo)
              (by_lines 0 (split_on CHR 0x0A (payload storage))), None))"

definition example_deps :: "(unit, unit) deps" where
  "example_deps =
     \<lparr>default_event = example_default_event,
      utcnow = (\<lambda>k. ''2022-02-02T12:00:0'' @ str_nat k),
      get_account_id_from_arn = account_id_of_arn,
      get_kinesis_stream_name_type_and_region_from_arn = arn_parts,
      get_by_lines = example_get_by_lines\<rparr>"

definition two_lines :: bytes where
  "two_lines = ''ab'' @ [CHR 0x0A] @ ''cd''"


text \<open>The template as an object of the store, and a world that holds nothing else.\<close>

definition example_template_obj :: pyobj where
  "example_template_obj =
     PDict 0 [(''@timestamp'', PStr ''''),
            (''fields'', PDict 1
               [(''message'', PStr ''''),
                (''log'', PDict 2 [(''offset'', PInt 0), (''file'', PDict 3 [(''path'', PStr '''')])]),
                (''aws'', PDict 4 []),
                (''cloud'', PDict 5
                   [(''provider'', PStr ''aws''), (''region'', PStr ''''),
                    (''account'', PDict 6 [])])]),
            (''meta'', PDict 7 [])]"

definition example_world :: world where
  "example_world = \<lparr>next_addr = 8, template_obj = example_template_obj, live = []\<rparr>"


section \<open>Properties of the continuation handler\<close>

lemma arn_parts_example [simp]:
  "arn_parts example_arn = Inr (''stream'', ''test-esf'', ''eu-central-1'')"
  by (simp add: arn_parts_def example_arn_def)

lemma valid_utf8_ascii_example [simp]: "valid_utf8 ''line one''"
  by (simp add: valid_utf8.simps in_range_def)

lemma invalid_utf8_example [simp]: "\<not> valid_utf8 [CHR 0xFF]"
  by (simp add: valid_utf8.simps in_range_def)

lemma str_int_examples [simp]: "str_int 0 = ''0''" "str_int 3 = ''3''" "str_int 1024 = ''1024''"
  by (simp_all add: str_int_def str_nat.simps digit_char_def)

text \<open>
  The three outcomes of a call: the ARN utility raises; the payload is not well-formed
  UTF-8; or the call is exactly one \<^verbatim>\<open>send_message\<close>.
\<close>

lemma handle_kinesis_continuation_sends:
  assumes "arn event_input_id = Inr (stream_type, stream_name, region)"
    and "valid_utf8 (data (kinesis kinesis_record))"
  shows "handle_kinesis_continuation send arn s q leo leeo kinesis_record event_input_id cfg =
    send \<lparr>QueueUrl = q, MessageBody = data (kinesis kinesis_record),
          MessageAttributes = message_attributes_of cfg stream_type stream_name
            (sequenceNumber (kinesis kinesis_record)) event_input_id leo leeo\<rparr> s"
  using assms by (simp add: handle_kinesis_continuation_def decode_utf8_def Let_def)

lemma handle_kinesis_continuation_raises:
  assumes "\<not> valid_utf8 (data (kinesis kinesis_record))"
  shows "handle_kinesis_continuation send arn s q leo leeo kinesis_record event_input_id cfg =
    (case arn event_input_id of
       Inl e \<Rightarrow> (Some e, s)
     | Inr parts \<Rightarrow> (Some UnicodeDecodeError, s))"
  using assms
  by (simp add: handle_kinesis_continuation_def decode_utf8_def Let_def split: sum.splits prod.splits)

lemma handle_kinesis_continuation_recorded:
  assumes "handle_kinesis_continuation recording_send arn sent q leo leeo kinesis_record
      event_input_id cfg = (None, sent')"
  shows "\<exists>stream_type stream_name region.
    arn event_input_id = Inr (stream_type, stream_name, region) \<and>
    valid_utf8 (data (kinesis kinesis_record)) \<and>
    sent' = sent @ [\<lparr>QueueUrl = q, MessageBody = data (kinesis kinesis_record),
          MessageAttributes = message_attributes_of cfg stream_type stream_name
            (sequenceNumber (kinesis kinesis_record)) event_input_id leo leeo\<rparr>]"
  using assms
  by (auto simp add: handle_kinesis_continuation_def decode_utf8_def Let_def recording_send_def
      split: sum.splits prod.splits if_splits)

lemma example_run:
  assumes "valid_utf8 bs"
  shows "handle_kinesis_continuation recording_send arn_parts sent q leo leeo
      (example_record bs) example_arn cfg =
    (None, sent @ [\<lparr>QueueUrl = q, MessageBody = bs,
        MessageAttributes = message_attributes_of cfg ''stream'' ''test-esf''
          ''4954511524144582180062593244200961'' example_arn leo leeo\<rparr>])"
  using assms
  by (simp add: handle_kinesis_continuation_def decode_utf8_def Let_def recording_send_def
      example_record_def)

lemma message_attributes_of_offsets:
  "message_attributes_of cfg stream_type stream_name sequence_number event_input_id leo leeo
      ''originalLastEndingOffset'' =
     map_option (\<lambda>v. \<lparr>StringValue = str_int v, DataType = ''Number''\<rparr>) leo"
  "message_attributes_of cfg stream_type stream_name sequence_number event_input_id leo leeo
      ''originalLastEventExpandedOffset'' =
     map_option (\<lambda>v. \<lparr>StringValue = str_int v, DataType = ''Number''\<rparr>) leeo"
  by (simp_all add: message_attributes_of_def Let_def split: option.splits)

lemma message_attributes_of_fixed:
  "message_attributes_of cfg stream_type stream_name sequence_number event_input_id leo leeo
      ''config'' = Some \<lparr>StringValue = cfg, DataType = ''String''\<rparr>"
  "message_attributes_of cfg stream_type stream_name sequence_number event_input_id leo leeo
      ''originalStreamType'' = Some \<lparr>StringValue = stream_type, DataType = ''String''\<rparr>"
  "message_attributes_of cfg stream_type stream_name sequence_number event_input_id leo leeo
      ''originalStreamName'' = Some \<lparr>StringValue = stream_name, DataType = ''String''\<rparr>"
  "message_attributes_of cfg stream_type stream_name sequence_number event_input_id leo leeo
      ''originalSequenceNumber'' = Some \<lparr>StringValue = sequence_number, DataType = ''String''\<rparr>"
  "message_attributes_of cfg stream_type stream_name sequence_number event_input_id leo leeo
      ''originalEventSourceARN'' = Some \<lparr>StringValue = event_input_id, DataType = ''String''\<rparr>"
  by (simp_all add: message_attributes_of_def Let_def split: option.splits)

lemma message_attributes_of_dom:
  "dom (message_attributes_of cfg stream_type stream_name sequence_number event_input_id leo leeo) =
     {''config'', ''originalStreamType'', ''originalStreamName'', ''originalSequenceNumber'',
      ''originalEventSourceARN''}
     \<union> (case leo of None \<Rightarrow> {} | Some v \<Rightarrow> {''originalLastEndingOffset''})
     \<union> (case leeo of None \<Rightarrow> {} | Some v \<Rightarrow> {''originalLastEventExpandedOffset''})"
  by (auto simp add: message_attributes_of_def Let_def split: option.splits if_splits)

text \<open>
  C3. Whenever a call returns normally, the one message it sent carries the attribute
  \<^verbatim>\<open>originalLastEndingOffset\<close> exactly when \<^verbatim>\<open>last_ending_offset\<close> is not \<^verbatim>\<open>None\<close>, and
  \<^verbatim>\<open>originalLastEventExpandedOffset\<close> exactly when \<^verbatim>\<open>last_event_expanded_offset\<close> is not
  \<^verbatim>\<open>None\<close>; the value of each is the decimal string \<^verbatim>\<open>str(v)\<close> with the data type
  \<^verbatim>\<open>Number\<close>. A present offset 0 is therefore the attribute \<^verbatim>\<open>"0"\<close>, not a missing one.
\<close>

theorem continuation_cursor_attributes:
  assumes "handle_kinesis_continuation recording_send arn sent q leo leeo kinesis_record
      event_input_id cfg = (None, sent')"
  shows "\<exists>req. sent' = sent @ [req] \<and>
    MessageAttributes req ''originalLastEndingOffset'' =
      map_option (\<lambda>v. \<lparr>StringValue = str_int v, DataType = ''Number''\<rparr>) leo \<and>
    MessageAttributes req ''originalLastEventExpandedOffset'' =
      map_option (\<lambda>v. \<lparr>StringValue = str_int v, DataType = ''Number''\<rparr>) leeo \<and>
    ((MessageAttributes req ''originalLastEndingOffset'' = None) = (leo = None)) \<and>
    ((MessageAttributes req ''originalLastEventExpandedOffset'' = None) = (leeo = None))"
proof -
  from handle_kinesis_continuation_recorded [OF assms]
  obtain stream_type stream_name region where
    sent': "sent' = sent @ [\<lparr>QueueUrl = q, MessageBody = data (kinesis kinesis_record),
          MessageAttributes = message_attributes_of cfg stream_type stream_name
            (sequenceNumber (kinesis kinesis_record)) event_input_id leo leeo\<rparr>]"
    by blast
  show ?thesis
  proof (intro exI conjI)
    show "sent' = sent @ [\<lparr>QueueUrl = q, MessageBody = data (kinesis kinesis_record),
          MessageAttributes = message_attributes_of cfg stream_type stream_name
            (sequenceNumber (kinesis kinesis_record)) event_input_id leo leeo\<rparr>]"
      by (rule sent')
  qed (simp_all add: message_attributes_of_offsets)
qed

theorem continuation_cursor_attributes_witness:
  "\<exists>req.
     handle_kinesis_continuation recording_send arn_parts [] ''continuing-queue'' (Some 0) None
       (example_record ''line one'') example_arn ''inputs: []'' = (None, [] @ [req]) \<and>
     MessageAttributes req ''originalLastEndingOffset'' =
       Some \<lparr>StringValue = ''0'', DataType = ''Number''\<rparr> \<and>
     MessageAttributes req ''originalLastEventExpandedOffset'' = None"
proof -
  have run: "handle_kinesis_continuation recording_send arn_parts [] ''continuing-queue''
      (Some 0) None (example_record ''line one'') example_arn ''inputs: []'' =
      (None, [] @ [\<lparr>QueueUrl = ''continuing-queue'', MessageBody = ''line one'',
          MessageAttributes = message_attributes_of ''inputs: []'' ''stream'' ''test-esf''
            ''4954511524144582180062593244200961'' example_arn (Some 0) None\<rparr>])"
    by (rule example_run) (rule valid_utf8_ascii_example)
  have "\<exists>req.
      [] @ [\<lparr>QueueUrl = ''continuing-queue'', MessageBody = ''line one'',
          MessageAttributes = message_attributes_of ''inputs: []'' ''stream'' ''test-esf''
            ''4954511524144582180062593244200961'' example_arn (Some 0) None\<rparr>] = [] @ [req] \<and>
      MessageAttributes req ''originalLastEndingOffset'' =
        map_option (\<lambda>v. \<lparr>StringValue = str_int v, DataType = ''Number''\<rparr>) (Some 0) \<and>
      MessageAttributes req ''originalLastEventExpandedOffset'' =
        map_option (\<lambda>v. \<lparr>StringValue = str_int v, DataType = ''Number''\<rparr>) None \<and>
      ((MessageAttributes req ''originalLastEndingOffset'' = None) = (Some (0::int) = None)) \<and>
      ((MessageAttributes req ''originalLastEventExpandedOffset'' = None) =
        ((None::int option) = None))"
    by (rule continuation_cursor_attributes [OF run])
  then obtain req where
    req: "[] @ [\<lparr>QueueUrl = ''continuing-queue'', MessageBody = ''line one'',
          MessageAttributes = message_attributes_of ''inputs: []'' ''stream'' ''test-esf''
            ''4954511524144582180062593244200961'' example_arn (Some 0) None\<rparr>] = [] @ [req]"
    and ending: "MessageAttributes req ''originalLastEndingOffset'' =
        map_option (\<lambda>v. \<lparr>StringValue = str_int v, DataType = ''Number''\<rparr>) (Some 0)"
    and expanded: "MessageAttributes req ''originalLastEventExpandedOffset'' =
        map_option (\<lambda>v. \<lparr>StringValue = str_int v, DataType = ''Number''\<rparr>) None"
    by (elim exE conjE)
  show ?thesis
  proof (intro exI conjI)
    show "handle_kinesis_continuation recording_send arn_parts [] ''continuing-queue''
      (Some 0) None (example_record ''line one'') example_arn ''inputs: []'' =
      (None, [] @ [req])"
      by (simp only: run req)
    show "MessageAttributes req ''originalLastEndingOffset'' =
       Some \<lparr>StringValue = ''0'', DataType = ''Number''\<rparr>"
      by (simp only: ending option.map str_int_examples)
    show "MessageAttributes req ''originalLastEventExpandedOffset'' = None"
      by (simp only: expanded option.map)
  qed
qed

text \<open>
  C4 (as amended). The handler does not validate the cursor. Called with
  \<^verbatim>\<open>last_ending_offset = None\<close> and \<^verbatim>\<open>last_event_expanded_offset = j\<close> it makes the same
  single \<^verbatim>\<open>send_message\<close> call as for any other cursor; the message carries
  \<^verbatim>\<open>originalLastEventExpandedOffset\<close> and no \<^verbatim>\<open>originalLastEndingOffset\<close>.
\<close>

theorem continuation_no_cursor_validation:
  assumes "arn event_input_id = Inr (stream_type, stream_name, region)"
    and "valid_utf8 (data (kinesis kinesis_record))"
  shows "\<exists>attrs.
    handle_kinesis_continuation send arn s q None (Some j) kinesis_record event_input_id cfg =
      send \<lparr>QueueUrl = q, MessageBody = data (kinesis kinesis_record),
            MessageAttributes = attrs\<rparr> s \<and>
    attrs ''originalLastEndingOffset'' = None \<and>
    attrs ''originalLastEventExpandedOffset'' =
      Some \<lparr>StringValue = str_int j, DataType = ''Number''\<rparr>"
proof (intro exI conjI)
  show "handle_kinesis_continuation send arn s q None (Some j) kinesis_record event_input_id cfg =
      send \<lparr>QueueUrl = q, MessageBody = data (kinesis kinesis_record),
            MessageAttributes = message_attributes_of cfg stream_type stream_name
              (sequenceNumber (kinesis kinesis_record)) event_input_id None (Some j)\<rparr> s"
    by (rule handle_kinesis_continuation_sends [where arn = arn and send = send, OF assms])
qed (simp_all add: message_attributes_of_offsets)

theorem continuation_no_cursor_validation_witness:
  "\<exists>attrs.
    handle_kinesis_continuation recording_send arn_parts [] ''continuing-queue'' None (Some 1024)
      (example_record ''line one'') example_arn ''inputs: []'' =
      (None, [] @ [\<lparr>QueueUrl = ''continuing-queue'',
               MessageBody = data (kinesis (example_record ''line one'')),
               MessageAttributes = attrs\<rparr>]) \<and>
    attrs ''originalLastEndingOffset'' = None \<and>
    attrs ''originalLastEventExpandedOffset'' =
      Some \<lparr>StringValue = ''1024'', DataType = ''Number''\<rparr>"
proof -
  have parsed: "arn_parts example_arn = Inr (''stream'', ''test-esf'', ''eu-central-1'')"
    by (rule arn_parts_example)
  have payload: "valid_utf8 (data (kinesis (example_record ''line one'')))"
    by (simp add: example_record_def)
  from continuation_no_cursor_validation [where arn = arn_parts and send = recording_send,
      OF parsed payload, of "[]" "''continuing-queue''" 1024 "''inputs: []''"]
  obtain attrs where
    run: "handle_kinesis_continuation recording_send arn_parts [] ''continuing-queue'' None
      (Some 1024) (example_record ''line one'') example_arn ''inputs: []'' =
      recording_send \<lparr>QueueUrl = ''continuing-queue'',
               MessageBody = data (kinesis (example_record ''line one'')),
               MessageAttributes = attrs\<rparr> []"
    and ending: "attrs ''originalLastEndingOffset'' = None"
    and expanded: "attrs ''originalLastEventExpandedOffset'' =
      Some \<lparr>StringValue = str_int 1024, DataType = ''Number''\<rparr>"
    by (elim exE conjE)
  show ?thesis
  proof (intro exI conjI)
    show "handle_kinesis_continuation recording_send arn_parts [] ''continuing-queue'' None
      (Some 1024) (example_record ''line one'') example_arn ''inputs: []'' =
      (None, [] @ [\<lparr>QueueUrl = ''continuing-queue'',
               MessageBody = data (kinesis (example_record ''line one'')),
               MessageAttributes = attrs\<rparr>])"
      by (simp only: run recording_send_def)
    show "attrs ''originalLastEndingOffset'' = None"
      by (rule ending)
    show "attrs ''originalLastEventExpandedOffset'' =
      Some \<lparr>StringValue = ''1024'', DataType = ''Number''\<rparr>"
      by (simp only: expanded str_int_examples)
  qed
qed

text \<open>
  C4, the claim as stated fails: a cursor with a sub-event index 3 and no ending offset is
  published, the call returns normally.
\<close>

theorem continuation_malformed_cursor_counterexample:
  "handle_kinesis_continuation recording_send arn_parts [] ''continuing-queue'' None (Some 3)
      (example_record ''line one'') example_arn ''inputs: []'' =
    (None, [\<lparr>QueueUrl = ''continuing-queue'', MessageBody = ''line one'',
        MessageAttributes = message_attributes_of ''inputs: []'' ''stream'' ''test-esf''
          ''4954511524144582180062593244200961'' example_arn None (Some 3)\<rparr>]) \<and>
   message_attributes_of ''inputs: []'' ''stream'' ''test-esf''
      ''4954511524144582180062593244200961'' example_arn None (Some 3)
      ''originalLastEventExpandedOffset'' = Some \<lparr>StringValue = ''3'', DataType = ''Number''\<rparr> \<and>
   message_attributes_of ''inputs: []'' ''stream'' ''test-esf''
      ''4954511524144582180062593244200961'' example_arn None (Some 3)
      ''originalLastEndingOffset'' = None"
  by (simp add: example_run message_attributes_of_offsets)

text \<open>
  C5 (as amended). When the source identifier parses and the payload of the record is
  well-formed UTF-8, one call is exactly one \<^verbatim>\<open>send_message\<close> call, on the continuing queue.
  The attributes of the message are \<^verbatim>\<open>config\<close>, \<^verbatim>\<open>originalStreamType\<close>,
  \<^verbatim>\<open>originalStreamName\<close>, \<^verbatim>\<open>originalSequenceNumber\<close>, \<^verbatim>\<open>originalEventSourceARN\<close> and the
  cursor offsets that are present, and no other; stream type and name are those parsed from
  \<^verbatim>\<open>event_input_id\<close>, the sequence number is the record's own.
\<close>

theorem continuation_publishes_one_message:
  assumes "arn event_input_id = Inr (stream_type, stream_name, region)"
    and "valid_utf8 (data (kinesis kinesis_record))"
  shows "\<exists>attrs.
    handle_kinesis_continuation send arn s q leo leeo kinesis_record event_input_id cfg =
      send \<lparr>QueueUrl = q, MessageBody = data (kinesis kinesis_record),
            MessageAttributes = attrs\<rparr> s \<and>
    dom attrs =
      {''config'', ''originalStreamType'', ''originalStreamName'', ''originalSequenceNumber'',
       ''originalEventSourceARN''}
      \<union> (case leo of None \<Rightarrow> {} | Some v \<Rightarrow> {''originalLastEndingOffset''})
      \<union> (case leeo of None \<Rightarrow> {} | Some v \<Rightarrow> {''originalLastEventExpandedOffset''}) \<and>
    attrs ''config'' = Some \<lparr>StringValue = cfg, DataType = ''String''\<rparr> \<and>
    attrs ''originalStreamType'' = Some \<lparr>StringValue = stream_type, DataType = ''String''\<rparr> \<and>
    attrs ''originalStreamName'' = Some \<lparr>StringValue = stream_name, DataType = ''String''\<rparr> \<and>
    attrs ''originalSequenceNumber'' =
      Some \<lparr>StringValue = sequenceNumber (kinesis kinesis_record), DataType = ''String''\<rparr> \<and>
    attrs ''originalEventSourceARN'' =
      Some \<lparr>StringValue = event_input_id, DataType = ''String''\<rparr> \<and>
    attrs ''originalLastEndingOffset'' =
      map_option (\<lambda>v. \<lparr>StringValue = str_int v, DataType = ''Number''\<rparr>) leo \<and>
    attrs ''originalLastEventExpandedOffset'' =
      map_option (\<lambda>v. \<lparr>StringValue = str_int v, DataType = ''Number''\<rparr>) leeo"
proof (intro exI conjI)
  show "handle_kinesis_continuation send arn s q leo leeo kinesis_record event_input_id cfg =
      send \<lparr>QueueUrl = q, MessageBody = data (kinesis kinesis_record),
            MessageAttributes = message_attributes_of cfg stream_type stream_name
              (sequenceNumber (kinesis kinesis_record)) event_input_id leo leeo\<rparr> s"
    by (rule handle_kinesis_continuation_sends [where arn = arn and send = send, OF assms])
qed (simp_all only: message_attributes_of_dom message_attributes_of_fixed
    message_attributes_of_offsets)

theorem continuation_publishes_one_message_witness:
  "\<exists>attrs.
    handle_kinesis_continuation recording_send arn_parts [] ''continuing-queue'' (Some 0) (Some 3)
      (example_record ''line one'') example_arn ''inputs: []'' =
      (None, [] @ [\<lparr>QueueUrl = ''continuing-queue'',
               MessageBody = data (kinesis (example_record ''line one'')),
               MessageAttributes = attrs\<rparr>]) \<and>
    dom attrs =
      {''config'', ''originalStreamType'', ''originalStreamName'', ''originalSequenceNumber'',
       ''originalEventSourceARN''}
      \<union> {''originalLastEndingOffset''} \<union> {''originalLastEventExpandedOffset''} \<and>
    attrs ''originalStreamType'' = Some \<lparr>StringValue = ''stream'', DataType = ''String''\<rparr> \<and>
    attrs ''originalStreamName'' = Some \<lparr>StringValue = ''test-esf'', DataType = ''String''\<rparr>"
proof -
  have parsed: "arn_parts example_arn = Inr (''stream'', ''test-esf'', ''eu-central-1'')"
    by (rule arn_parts_example)
  have payload: "valid_utf8 (data (kinesis (example_record ''line one'')))"
    by (simp add: example_record_def)
  from continuation_publishes_one_message [where arn = arn_parts and send = recording_send,
      OF parsed payload, of "[]" "''continuing-queue''" "Some 0" "Some 3" "''inputs: []''"]
  obtain attrs where
    run: "handle_kinesis_continuation recording_send arn_parts [] ''continuing-queue'' (Some 0)
      (Some 3) (example_record ''line one'') example_arn ''inputs: []'' =
      recording_send \<lparr>QueueUrl = ''continuing-queue'',
               MessageBody = data (kinesis (example_record ''line one'')),
               MessageAttributes = attrs\<rparr> []"
    and keys: "dom attrs =
      {''config'', ''originalStreamType'', ''originalStreamName'', ''originalSequenceNumber'',
       ''originalEventSourceARN''}
      \<union> (case Some (0::int) of None \<Rightarrow> {} | Some v \<Rightarrow> {''originalLastEndingOffset''})
      \<union> (case Some (3::int) of None \<Rightarrow> {}
          | Some v \<Rightarrow> {''originalLastEventExpandedOffset''})"
    and stream_type: "attrs ''originalStreamType'' =
      Some \<lparr>StringValue = ''stream'', DataType = ''String''\<rparr>"
    and stream_name: "attrs ''originalStreamName'' =
      Some \<lparr>StringValue = ''test-esf'', DataType = ''String''\<rparr>"
    by (elim exE conjE)
  show ?thesis
  proof (intro exI conjI)
    show "handle_kinesis_continuation recording_send arn_parts [] ''continuing-queue'' (Some 0)
      (Some 3) (example_record ''line one'') example_arn ''inputs: []'' =
      (None, [] @ [\<lparr>QueueUrl = ''continuing-queue'',
               MessageBody = data (kinesis (example_record ''line one'')),
               MessageAttributes = attrs\<rparr>])"
      by (simp only: run recording_send_def)
    show "dom attrs =
      {''config'', ''originalStreamType'', ''originalStreamName'', ''originalSequenceNumber'',
       ''originalEventSourceARN''}
      \<union> {''originalLastEndingOffset''} \<union> {''originalLastEventExpandedOffset''}"
      by (simp only: keys option.case)
    show "attrs ''originalStreamType'' = Some \<lparr>StringValue = ''stream'', DataType = ''String''\<rparr>"
      by (rule stream_type)
    show "attrs ''originalStreamName'' =
      Some \<lparr>StringValue = ''test-esf'', DataType = ''String''\<rparr>"
      by (rule stream_name)
  qed
qed

text \<open>
  C5, the claim as stated fails: for a record whose payload is the single byte \<open>0xFF\<close>
  the call raises \<^verbatim>\<open>UnicodeDecodeError\<close> and no message is sent.
\<close>

theorem continuation_publishes_one_message_counterexample:
  "handle_kinesis_continuation recording_send arn_parts [] ''continuing-queue'' (Some 0) (Some 3)
      (example_record [CHR 0xFF]) example_arn ''inputs: []'' = (Some UnicodeDecodeError, [])"
  by (simp add: handle_kinesis_continuation_def decode_utf8_def Let_def example_record_def)

text \<open>
  C8. Whenever a call returns normally, the body of the one message it sent, on the
  continuing queue, is the payload \<^verbatim>\<open>kinesis_record["kinesis"]["data"]\<close> of the record
  itself, which is then well-formed UTF-8 and is the text it encodes; the attribute
  \<^verbatim>\<open>config\<close> is the string \<^verbatim>\<open>config_yaml\<close>, unchanged.
\<close>

theorem continuation_body_is_raw_payload:
  assumes "handle_kinesis_continuation recording_send arn sent q leo leeo kinesis_record
      event_input_id cfg = (None, sent')"
  shows "\<exists>req. sent' = sent @ [req] \<and>
    QueueUrl req = q \<and>
    MessageBody req = data (kinesis kinesis_record) \<and>
    valid_utf8 (MessageBody req) \<and>
    MessageAttributes req ''config'' = Some \<lparr>StringValue = cfg, DataType = ''String''\<rparr>"
proof -
  from handle_kinesis_continuation_recorded [OF assms]
  obtain stream_type stream_name region where
    valid: "valid_utf8 (data (kinesis kinesis_record))" and
    sent': "sent' = sent @ [\<lparr>QueueUrl = q, MessageBody = data (kinesis kinesis_record),
          MessageAttributes = message_attributes_of cfg stream_type stream_name
            (sequenceNumber (kinesis kinesis_record)) event_input_id leo leeo\<rparr>]"
    by (elim exE conjE)
  show ?thesis
  proof (intro exI conjI)
    show "sent' = sent @ [\<lparr>QueueUrl = q, MessageBody = data (kinesis kinesis_record),
          MessageAttributes = message_attributes_of cfg stream_type stream_name
            (sequenceNumber (kinesis kinesis_record)) event_input_id leo leeo\<rparr>]"
      by (rule sent')
  qed (simp_all add: message_attributes_of_fixed valid)
qed

theorem continuation_body_is_raw_payload_witness:
  "\<exists>req.
     handle_kinesis_continuation recording_send arn_parts [] ''continuing-queue'' (Some 3) (Some 0)
       (example_record ''line one'') example_arn ''inputs: []'' = (None, [] @ [req]) \<and>
     MessageBody req = data (kinesis (example_record ''line one'')) \<and>
     MessageAttributes req ''config'' = Some \<lparr>StringValue = ''inputs: []'', DataType = ''String''\<rparr>"
proof -
  have run: "handle_kinesis_continuation recording_send arn_parts [] ''continuing-queue''
      (Some 3) (Some 0) (example_record ''line one'') example_arn ''inputs: []'' =
      (None, [] @ [\<lparr>QueueUrl = ''continuing-queue'', MessageBody = ''line one'',
          MessageAttributes = message_attributes_of ''inputs: []'' ''stream'' ''test-esf''
            ''4954511524144582180062593244200961'' example_arn (Some 3) (Some 0)\<rparr>])"
    by (rule example_run) (rule valid_utf8_ascii_example)
  from continuation_body_is_raw_payload [OF run]
  obtain req where
    req: "[] @ [\<lparr>QueueUrl = ''continuing-queue'', MessageBody = ''line one'',
          MessageAttributes = message_attributes_of ''inputs: []'' ''stream'' ''test-esf''
            ''4954511524144582180062593244200961'' example_arn (Some 3) (Some 0)\<rparr>] = [] @ [req]"
    and body: "MessageBody req = data (kinesis (example_record ''line one''))"
    and config: "MessageAttributes req ''config'' =
      Some \<lparr>StringValue = ''inputs: []'', DataType = ''String''\<rparr>"
    by (elim exE conjE)
  show ?thesis
  proof (intro exI conjI)
    show "handle_kinesis_continuation recording_send arn_parts [] ''continuing-queue''
      (Some 3) (Some 0) (example_record ''line one'') example_arn ''inputs: []'' =
      (None, [] @ [req])"
      by (simp only: run req)
  qed (rule body, rule config)
qed

text \<open>
  C9. When the payload of the record is not well-formed UTF-8 the call raises and the state
  of the SQS client is the one before the call, whatever \<^verbatim>\<open>send_message\<close> does: the
  exception is raised before the message is sent. The exception is \<^verbatim>\<open>UnicodeDecodeError\<close>
  unless the ARN utility, which is called first, has raised its own.
\<close>

theorem continuation_ill_formed_payload_raises:
  assumes "\<not> valid_utf8 (data (kinesis kinesis_record))"
  shows "handle_kinesis_continuation send arn s q leo leeo kinesis_record event_input_id cfg =
    (Some (case arn event_input_id of Inl e \<Rightarrow> e | Inr parts \<Rightarrow> UnicodeDecodeError), s)"
  by (simp add: handle_kinesis_continuation_raises [OF assms] split: sum.splits)

theorem continuation_ill_formed_payload_raises_witness:
  "\<not> valid_utf8 (data (kinesis (example_record [CHR ''a'', CHR 0x80]))) \<and>
   handle_kinesis_continuation recording_send arn_parts [] ''continuing-queue'' None None
     (example_record [CHR ''a'', CHR 0x80]) example_arn ''inputs: []'' =
   (Some UnicodeDecodeError, [])"
proof -
  have ill: "\<not> valid_utf8 (data (kinesis (example_record [CHR ''a'', CHR 0x80])))"
    by (simp add: example_record_def valid_utf8.simps in_range_def)
  from continuation_ill_formed_payload_raises [OF ill, of recording_send arn_parts "[]"
      "''continuing-queue''" None None example_arn "''inputs: []''"] ill
  show ?thesis
    by (simp only: arn_parts_example sum.case simp_thms)
qed

section \<open>Properties of the record handler\<close>

lemma bind_Inr_iff: "bind m f = Inr y \<longleftrightarrow> (\<exists>x. m = Inr x \<and> f x = Inr y)"
  by (cases m) (simp_all add: bind_def)

lemma getitem_setitem_same: "setitem d k v = Inr d' \<Longrightarrow> getitem d' k = Inr v"
  by (cases d) (auto simp add: update_conv')

lemma getitem_setitem_other: "setitem d k v = Inr d' \<Longrightarrow> k' \<noteq> k \<Longrightarrow> getitem d' k' = getitem d k'"
  by (cases d) (auto simp add: update_conv')

lemma getpath_set_nested_same:
  "set_nested d p k v = Inr d' \<Longrightarrow> getpath d' (p @ [k]) = Inr v"
proof (induction p arbitrary: d d')
  case Nil
  then show ?case by (simp add: getitem_setitem_same bind_def)
next
  case (Cons a p)
  from Cons.prems obtain sub sub' where
    sub: "getitem d a = Inr sub" and sub': "set_nested sub p k v = Inr sub'"
    and d': "setitem d a sub' = Inr d'"
    by (auto simp add: bind_Inr_iff)
  from getitem_setitem_same [OF d'] Cons.IH [OF sub'] show ?case
    by (simp add: bind_def)
qed

lemma getpath_set_nested_other:
  "set_nested d p k v = Inr d' \<Longrightarrow> \<not> prefix q (p @ [k]) \<Longrightarrow> \<not> prefix (p @ [k]) q
    \<Longrightarrow> getpath d' q = getpath d q"
proof (induction p arbitrary: d d' q)
  case Nil
  then obtain x q' where q: "q = x # q'" and x: "x \<noteq> k"
    by (cases q) auto
  from getitem_setitem_other [OF _ x] Nil.prems(1) show ?case
    by (simp add: q)
next
  case (Cons a p)
  from Cons.prems(1) obtain sub sub' where
    sub: "getitem d a = Inr sub" and sub': "set_nested sub p k v = Inr sub'"
    and d': "setitem d a sub' = Inr d'"
    by (auto simp add: bind_Inr_iff)
  from Cons.prems(2) obtain x q' where q: "q = x # q'"
    by (cases q) auto
  show ?case
  proof (cases "x = a")
    case True
    with Cons.prems q have "\<not> prefix q' (p @ [k])" "\<not> prefix (p @ [k]) q'"
      by auto
    from Cons.IH [OF sub' this] getitem_setitem_same [OF d'] sub show ?thesis
      by (simp add: q True bind_def)
  next
    case False
    from getitem_setitem_other [OF d' False] show ?thesis
      by (simp add: q)
  qed
qed

lemma es_event_of_offset:
  assumes "es_event_of template ts r st sn rg acc le so = Inr es"
  shows "getpath es [''fields'', ''log'', ''offset''] = Inr (JInt so)"
proof -
  from assms obtain b e1 m e2 e3 e4 e5 e6 where
    s3: "set_nested e2 [''fields'', ''log''] ''offset'' (JInt so) = Inr e3" and
    s4: "set_nested e3 [''fields'', ''log'', ''file''] ''path'' (JStr (eventSourceARN r)) = Inr e4"
    and
    s5: "set_nested e4 [''fields''] ''aws''
          (JDict [(''kinesis'', JDict
             [(''type'', JStr st),
              (''name'', JStr sn),
              (''sequence_number'', JStr (sequenceNumber (kinesis r)))])]) = Inr e5" and
    s6: "set_nested e5 [''fields'', ''cloud''] ''region'' (JStr rg) = Inr e6" and
    s7: "set_nested e6 [''fields'', ''cloud''] ''account'' (JDict [(''id'', JStr acc)]) = Inr es"
    by (auto simp add: es_event_of_def bind_Inr_iff simp del: set_nested.simps
        split: log_event.splits)
  have "getpath es [''fields'', ''log'', ''offset''] = getpath e6 [''fields'', ''log'', ''offset'']"
    by (rule getpath_set_nested_other [OF s7]) simp_all
  also have "\<dots> = getpath e5 [''fields'', ''log'', ''offset'']"
    by (rule getpath_set_nested_other [OF s6]) simp_all
  also have "\<dots> = getpath e4 [''fields'', ''log'', ''offset'']"
    by (rule getpath_set_nested_other [OF s5]) simp_all
  also have "\<dots> = getpath e3 [''fields'', ''log'', ''offset'']"
    by (rule getpath_set_nested_other [OF s4]) simp_all
  also have "\<dots> = Inr (JInt so)"
    using getpath_set_nested_same [OF s3] by simp
  finally show ?thesis .
qed



lemma handle_events_member:
  "y \<in> set (fst (handle_events template clock r st sn rg acc n k us)) \<Longrightarrow>
   \<exists>le so eo xo j. (le, so, eo, xo) \<in> set us \<and>
     es_event_of template (clock j) r st sn rg acc le so = Inr (fst y) \<and> snd y = (eo, xo, n)"
proof (induction us arbitrary: k)
  case Nil
  then show ?case by simp
next
  case (Cons u us)
  obtain le so eo xo where u: "u = (le, so, eo, xo)"
    by (cases u)
  show ?case
  proof (cases "es_event_of template (clock k) r st sn rg acc le so")
    case (Inl e)
    with Cons.prems u show ?thesis by simp
  next
    case (Inr es)
    show ?thesis
    proof (cases "y = (es, eo, xo, n)")
      case True
      with Inr u show ?thesis by fastforce
    next
      case False
      with Cons.prems Inr u
      have "y \<in> set (fst (handle_events template clock r st sn rg acc n (Suc k) us))"
        by (auto simp add: case_prod_beta)
      from Cons.IH [OF this] u show ?thesis by fastforce
    qed
  qed
qed



lemma handle_record_member:
  assumes "y \<in> set (fst (handle_record deps expand jct multiline acc n k r))"
  shows "\<exists>le so eo xo j st sn rg.
     get_kinesis_stream_name_type_and_region_from_arn deps (eventSourceARN r) = Inr (st, sn, rg) \<and>
     (le, so, eo, xo) \<in> set (fst (get_by_lines deps
        (StorageFactory_create (data (kinesis r)) jct expand multiline) 0)) \<and>
     es_event_of (default_event deps) (utcnow deps j) r st sn rg acc le so = Inr (fst y) \<and>
     snd y = (eo, xo, n)"
proof (cases "get_kinesis_stream_name_type_and_region_from_arn deps (eventSourceARN r)")
  case (Inl e)
  with assms show ?thesis by (simp add: handle_record_def)
next
  case (Inr parts)
  obtain st sn rg where parts: "parts = (st, sn, rg)"
    by (cases parts)
  obtain us raised where us: "get_by_lines deps
      (StorageFactory_create (data (kinesis r)) jct expand multiline) 0 = (us, raised)"
    by (cases "get_by_lines deps (StorageFactory_create (data (kinesis r)) jct expand multiline) 0")
  obtain ys err where ys: "handle_events (default_event deps) (utcnow deps) r st sn rg acc n k us
      = (ys, err)"
    by (cases "handle_events (default_event deps) (utcnow deps) r st sn rg acc n k us")
  from assms have "y \<in> set (fst (handle_events (default_event deps) (utcnow deps) r st sn rg
      acc n k us))"
    by (cases err) (simp_all add: handle_record_def Inr parts us ys)
  from handle_events_member [OF this] show ?thesis
    by (auto simp add: Inr parts us)
qed



lemma handle_records_member:
  "y \<in> set (fst (handle_records deps expand jct multiline acc n k rs)) \<Longrightarrow>
   \<exists>i < length rs. \<exists>le so eo xo j st sn rg.
     get_kinesis_stream_name_type_and_region_from_arn deps (eventSourceARN (rs ! i)) =
       Inr (st, sn, rg) \<and>
     (le, so, eo, xo) \<in> set (fst (get_by_lines deps
        (StorageFactory_create (data (kinesis (rs ! i))) jct expand multiline) 0)) \<and>
     es_event_of (default_event deps) (utcnow deps j) (rs ! i) st sn rg acc le so = Inr (fst y) \<and>
     snd y = (eo, xo, n + i)"
proof (induction rs arbitrary: n k)
  case Nil
  then show ?case by simp
next
  case (Cons r rs)
  obtain ys err where r: "handle_record deps expand jct multiline acc n k r = (ys, err)"
    by (cases "handle_record deps expand jct multiline acc n k r")
  show ?case
  proof (cases "y \<in> set ys")
    case True
    with r have "y \<in> set (fst (handle_record deps expand jct multiline acc n k r))"
      by simp
    from handle_record_member [OF this] obtain le so eo xo j st sn rg where
      "get_kinesis_stream_name_type_and_region_from_arn deps (eventSourceARN r) = Inr (st, sn, rg)"
      "(le, so, eo, xo) \<in> set (fst (get_by_lines deps
        (StorageFactory_create (data (kinesis r)) jct expand multiline) 0))"
      "es_event_of (default_event deps) (utcnow deps j) r st sn rg acc le so = Inr (fst y)"
      "snd y = (eo, xo, n)"
      by blast
    then have "\<exists>le so eo xo j st sn rg.
     get_kinesis_stream_name_type_and_region_from_arn deps (eventSourceARN ((r # rs) ! 0)) =
       Inr (st, sn, rg) \<and>
     (le, so, eo, xo) \<in> set (fst (get_by_lines deps
        (StorageFactory_create (data (kinesis ((r # rs) ! 0))) jct expand multiline) 0)) \<and>
     es_event_of (default_event deps) (utcnow deps j) ((r # rs) ! 0) st sn rg acc le so =
       Inr (fst y) \<and>
     snd y = (eo, xo, n + 0)"
      by simp blast
    then show ?thesis
      by (intro exI [of _ 0]) simp
  next
    case False
    with Cons.prems r have "y \<in> set (fst (handle_records deps expand jct multiline acc (Suc n)
        (k + length ys) rs))"
      by (cases err) (auto simp add: case_prod_beta)
    from Cons.IH [OF this] obtain i where i: "i < length rs" and
      "\<exists>le so eo xo j st sn rg.
     get_kinesis_stream_name_type_and_region_from_arn deps (eventSourceARN (rs ! i)) =
       Inr (st, sn, rg) \<and>
     (le, so, eo, xo) \<in> set (fst (get_by_lines deps
        (StorageFactory_create (data (kinesis (rs ! i))) jct expand multiline) 0)) \<and>
     es_event_of (default_event deps) (utcnow deps j) (rs ! i) st sn rg acc le so = Inr (fst y) \<and>
     snd y = (eo, xo, Suc n + i)"
      by blast
    then show ?thesis
      by (intro exI [of _ "Suc i"]) simp
  qed
qed













text \<open>
  C10. Every tuple yielded comes from a decoded unit of the record whose 0-based index is
  its last component: it carries the ending offset and the expanded offset of the unit,
  while the field \<^verbatim>\<open>fields.log.offset\<close> of its document is the starting offset of the unit.
\<close>

theorem document_offset_and_cursor:
  assumes "(es_event, ending_offset, event_expanded_offset, kinesis_record_n) \<in>
      set (fst (handle_kinesis_record deps event input_id expand jct multiline))"
  shows "kinesis_record_n < length (Records event) \<and>
    (\<exists>log_event starting_offset.
       (log_event, starting_offset, ending_offset, event_expanded_offset) \<in>
         set (fst (get_by_lines deps
           (StorageFactory_create (data (kinesis (Records event ! kinesis_record_n)))
              jct expand multiline) 0)) \<and>
       getpath es_event [''fields'', ''log'', ''offset''] = Inr (JInt starting_offset))"
proof (cases "get_account_id_from_arn deps input_id")
  case (Inl e)
  with assms show ?thesis by (simp add: handle_kinesis_record_def)
next
  case (Inr acc)
  with assms have "(es_event, ending_offset, event_expanded_offset, kinesis_record_n) \<in>
      set (fst (handle_records deps expand jct multiline acc 0 0 (Records event)))"
    by (simp add: handle_kinesis_record_def)
  from handle_records_member [OF this] obtain i le so eo xo j st sn rg where
    i: "i < length (Records event)" and
    unit: "(le, so, eo, xo) \<in> set (fst (get_by_lines deps
        (StorageFactory_create (data (kinesis (Records event ! i))) jct expand multiline) 0))" and
    es: "es_event_of (default_event deps) (utcnow deps j) (Records event ! i) st sn rg acc le so =
      Inr es_event" and
    cursor: "(ending_offset, event_expanded_offset, kinesis_record_n) = (eo, xo, 0 + i)"
    by auto
  from es_event_of_offset [OF es] i unit cursor show ?thesis
    by auto
qed

theorem document_offset_and_cursor_witness:
  "\<exists>es_event.
     (es_event, 6, None, 0) \<in> set (fst (handle_kinesis_record example_deps
        \<lparr>Records = [example_record two_lines]\<rparr> example_arn () None None)) \<and>
     getpath es_event [''fields'', ''log'', ''offset''] = Inr (JInt 3)"
proof -
  let ?run = "handle_kinesis_record example_deps
        \<lparr>Records = [example_record two_lines]\<rparr> example_arn () None None"
  have len: "length (fst ?run) = 2"
    by code_simp
  have cur: "snd (fst ?run ! 1) = (6, None, 0)"
    by code_simp
  have units: "fst (get_by_lines example_deps
           (StorageFactory_create (data (kinesis (Records
              \<lparr>Records = [example_record two_lines]\<rparr> ! 0))) None () None) 0) =
      [(Bytes ''ab'', 0, 3, None), (Bytes ''cd'', 3, 6, None)]"
    by code_simp
  from len have "fst ?run ! 1 \<in> set (fst ?run)"
    by simp
  with cur have mem: "(fst (fst ?run ! 1), 6, None, 0) \<in> set (fst ?run)"
    by (metis prod.collapse)
  from document_offset_and_cursor [OF mem] obtain le so where
    "(le, so, 6, None) \<in> set (fst (get_by_lines example_deps
           (StorageFactory_create (data (kinesis (Records
              \<lparr>Records = [example_record two_lines]\<rparr> ! 0))) None () None) 0))"
    and off: "getpath (fst (fst ?run ! 1)) [''fields'', ''log'', ''offset''] = Inr (JInt so)"
    by blast
  then have "so = 3"
    unfolding units by simp
  with mem off show ?thesis by blast
qed

section \<open>Properties of the store\<close>

lemma assign_id:
  "a \<notin> addrs x \<Longrightarrow> assign a k v x = x"
  "a \<notin> addrs_items kvs \<Longrightarrow> assign_items a k v kvs = kvs"
  by (induction x and kvs rule: addrs_addrs_items.induct) auto

lemma deepcopy_fresh:
  "deepcopy n x = (x', n') \<Longrightarrow> n \<le> n' \<and> addrs x' \<subseteq> {n..<n'}"
  "deepcopy_items n kvs = (kvs', n') \<Longrightarrow> n \<le> n' \<and> addrs_items kvs' \<subseteq> {n..<n'}"
proof (induction n x and n kvs arbitrary: x' n' and kvs' n' rule: deepcopy_deepcopy_items.induct)
  case (1 n s)
  then show ?case by auto
next
  case (2 n i)
  then show ?case by auto
next
  case (3 n a kvs)
  obtain ks m where ks: "deepcopy_items (Suc n) kvs = (ks, m)"
    by (cases "deepcopy_items (Suc n) kvs")
  from "3.IH" [OF ks] "3.prems" ks show ?case
    by (fastforce simp add: subset_iff)
next
  case (4 n)
  then show ?case by auto
next
  case (5 n k x kvs)
  obtain y n1 where y: "deepcopy n x = (y, n1)"
    by (cases "deepcopy n x")
  obtain ks n2 where ks: "deepcopy_items n1 kvs = (ks, n2)"
    by (cases "deepcopy_items n1 kvs")
  from "5.IH"(1) [OF y] "5.IH"(2) [OF y [symmetric] ks] "5.prems" y ks show ?case
    by (fastforce simp add: subset_iff)
qed

lemma addrs_items_update:
  "addrs_items (AList.update k v kvs) \<subseteq> addrs v \<union> addrs_items kvs"
  by (induction kvs) auto

lemma addrs_assign:
  "addrs (assign a k v x) \<subseteq> addrs x \<union> addrs v"
  "addrs_items (assign_items a k v kvs) \<subseteq> addrs_items kvs \<union> addrs v"
proof (induction x and kvs rule: addrs_addrs_items.induct)
  case (3 b kvs)
  from addrs_items_update [of k v "assign_items a k v kvs"] 3 show ?case
    by auto
qed auto

lemma map_of_addrs: "map_of kvs k = Some y \<Longrightarrow> addrs y \<subseteq> addrs_items kvs"
  by (induction kvs) (auto split: if_splits)

lemma pgetitem_addrs: "pgetitem x k = Inr y \<Longrightarrow> addrs y \<subseteq> addrs x"
  by (cases x) (auto split: option.splits dest: map_of_addrs)

lemma pgetpath_addrs: "pgetpath x p = Inr y \<Longrightarrow> addrs y \<subseteq> addrs x"
proof (induction p arbitrary: x)
  case Nil
  then show ?case by simp
next
  case (Cons k p)
  from Cons.prems obtain z where z: "pgetitem x k = Inr z" and y: "pgetpath z p = Inr y"
    by (auto simp add: bind_Inr_iff)
  from Cons.IH [OF y] pgetitem_addrs [OF z] show ?case by blast
qed

lemma wp_seq: "wp (seq m f) Q E w = wp m (\<lambda>x. wp (f x) Q E) E w"
  by (simp add: wp_def seq_def split: prod.splits sum.splits)

lemma wp_lift: "wp (lift r) Q E w = (case r of Inl e \<Rightarrow> E e w | Inr x \<Rightarrow> Q x w)"
  by (simp add: wp_def lift_def split: sum.splits)

lemma wp_dict:
  "wp (store_dict kvs) Q E w = Q (PDict (next_addr w) kvs) (w\<lparr>next_addr := Suc (next_addr w)\<rparr>)"
  by (simp add: wp_def store_dict_def)

lemma wp_deepcopy:
  "wp store_deepcopy_template Q E w =
     Q (fst (deepcopy (next_addr w) (template_obj w)))
       (w\<lparr>next_addr := snd (deepcopy (next_addr w) (template_obj w))\<rparr>)"
  by (simp add: wp_def store_deepcopy_template_def split: prod.splits)

lemma assign_allocated:
  assumes "allocated w0" and "frame w0 w" and "a \<in> addrs es" and "fresh w0 w es"
  shows "w\<lparr>template_obj := assign a k v (template_obj w),
           live := map (assign a k v) (live w)\<rparr> = w"
proof -
  from assms have a: "next_addr w0 \<le> a"
    by (auto simp add: fresh_def)
  with assms(1) have "a \<notin> addrs (template_obj w0)" and "\<forall>d \<in> set (live w0). a \<notin> addrs d"
    by (fastforce simp add: allocated_def)+
  with assms(2) have "assign a k v (template_obj w) = template_obj w"
    and "map (assign a k v) (live w) = live w"
    by (simp_all add: frame_def assign_id map_idI)
  then show ?thesis by simp
qed

lemma wp_setitem:
  assumes "allocated w0" and "frame w0 w" and "fresh w0 w es" and "fresh w0 w v"
    and "\<And>es'. fresh w0 w es' \<Longrightarrow> Q es' w"
  shows "wp (store_setitem es p k v) Q (\<lambda>e. frame w0) w"
proof (cases "pgetpath es p")
  case (Inl e)
  with assms(2) show ?thesis by (simp add: wp_def store_setitem_def)
next
  case (Inr target)
  show ?thesis
  proof (cases target)
    case (PStr s)
    with Inr assms(2) show ?thesis by (simp add: wp_def store_setitem_def)
  next
    case (PInt i)
    with Inr assms(2) show ?thesis by (simp add: wp_def store_setitem_def)
  next
    case (PDict a kvs)
    from pgetpath_addrs [OF Inr] PDict have a: "a \<in> addrs es"
      by auto
    from addrs_assign(1) [of a k v es] assms(3,4) have "fresh w0 w (assign a k v es)"
      by (auto simp add: fresh_def)
    from assms(5) [OF this] show ?thesis
      by (simp add: wp_def store_setitem_def Inr PDict
          assign_allocated [OF assms(1,2) a assms(3)])
  qed
qed

lemma wp_store_es_event:
  assumes "allocated w"
  shows "wp (store_es_event ts r st sn rg acc le so)
     (\<lambda>es w'. frame w w' \<and> fresh w w' es) (\<lambda>e. frame w) w"
proof (cases le)
  case NotBytes
  then show ?thesis by (simp add: store_es_event_def wp_lift frame_def)
next
  case (Bytes b)
  obtain es n' where dc: "deepcopy (next_addr w) (template_obj w) = (es, n')"
    by (cases "deepcopy (next_addr w) (template_obj w)")
  from deepcopy_fresh(1) [OF dc] have n': "next_addr w \<le> n'" and es: "addrs es \<subseteq> {next_addr w..<n'}"
    by simp_all
  show ?thesis
    unfolding store_es_event_def Bytes log_event.case wp_seq wp_deepcopy dc fst_conv snd_conv
    using n' es
    by (auto simp add: wp_seq wp_lift wp_dict frame_def fresh_def subset_iff
        intro!: wp_setitem [OF assms] split: sum.splits)
      (meson less_SucI)+
qed

lemma store_es_event_frame:
  assumes "allocated w" and "store_es_event ts r st sn rg acc le so w = (res, w')"
  shows "frame w w' \<and> (\<forall>es. res = Inr es \<longrightarrow> fresh w w' es)"
  using wp_store_es_event [OF assms(1), of ts r st sn rg acc le so] assms(2)
  by (cases res) (simp_all add: wp_def)

lemma separated_append:
  "separated (xs @ ys) \<longleftrightarrow>
     separated xs \<and> separated ys \<and> (\<forall>x \<in> set xs. \<forall>y \<in> set ys. addrs x \<inter> addrs y = {})"
  by (induction xs) auto

lemma separated_nth:
  "separated ds \<Longrightarrow> i < length ds \<Longrightarrow> j < length ds \<Longrightarrow> i \<noteq> j
    \<Longrightarrow> addrs (ds ! i) \<inter> addrs (ds ! j) = {}"
proof (induction ds arbitrary: i j)
  case Nil
  then show ?case by simp
next
  case (Cons d ds)
  show ?case
  proof (cases i)
    case 0
    with Cons.prems obtain j' where "j = Suc j'" "j' < length ds"
      by (cases j) auto
    with Cons.prems(1) 0 show ?thesis by auto
  next
    case (Suc i')
    show ?thesis
    proof (cases j)
      case 0
      with Cons.prems(1,2) Suc show ?thesis by auto
    next
      case (Suc j')
      with Cons.prems \<open>i = Suc i'\<close> Cons.IH [of i' j'] show ?thesis by auto
    qed
  qed
qed

lemma yields_ok_nil:
  "allocated w \<Longrightarrow> frame w w' \<Longrightarrow> yields_ok w [] w'"
  by (fastforce simp add: yields_ok_def frame_def allocated_def)

lemma yields_ok_single:
  "allocated w \<Longrightarrow> frame w w1 \<Longrightarrow> fresh w w1 es
    \<Longrightarrow> yields_ok w [(es, c)] (w1\<lparr>live := live w1 @ [es]\<rparr>)"
  by (fastforce simp add: yields_ok_def frame_def allocated_def fresh_def subset_iff)

lemma yields_ok_trans:
  assumes "yields_ok w ys w1" and "yields_ok w1 ys' w2"
  shows "yields_ok w (ys @ ys') w2"
proof -
  have "addrs (fst x) \<inter> addrs (fst y) = {}" if "x \<in> set ys" "y \<in> set ys'" for x y
  proof -
    from assms(1) that(1) have "addrs (fst x) \<subseteq> {next_addr w..<next_addr w1}"
      by (simp add: yields_ok_def)
    moreover from assms(2) that(2) have "addrs (fst y) \<subseteq> {next_addr w1..<next_addr w2}"
      by (simp add: yields_ok_def)
    ultimately show ?thesis by fastforce
  qed
  moreover have "addrs (fst y) \<subseteq> {next_addr w..<next_addr w2}" if "y \<in> set (ys @ ys')" for y
  proof -
    from that have "y \<in> set ys \<or> y \<in> set ys'" by simp
    with assms show ?thesis
      by (fastforce simp add: yields_ok_def subset_iff)
  qed
  ultimately show ?thesis
    using assms by (simp add: yields_ok_def separated_append)
qed

lemma store_handle_events_ok:
  "allocated w \<Longrightarrow>
   store_handle_events clock r st sn rg acc n k us w = ((ys, err), w') \<Longrightarrow> yields_ok w ys w'"
proof (induction us arbitrary: w k ys err w')
  case Nil
  then show ?case by (simp add: yields_ok_nil frame_def)
next
  case (Cons u us)
  obtain le so eo xo where u: "u = (le, so, eo, xo)"
    by (cases u)
  obtain res w1 where ev: "store_es_event (clock k) r st sn rg acc le so w = (res, w1)"
    by (cases "store_es_event (clock k) r st sn rg acc le so w")
  from store_es_event_frame [OF Cons.prems(1) ev]
  have fr: "frame w w1" and fresh: "\<And>es. res = Inr es \<Longrightarrow> fresh w w1 es"
    by simp_all
  show ?case
  proof (cases res)
    case (Inl e)
    with Cons.prems(2) u ev have "ys = []" "w' = w1" by simp_all
    with yields_ok_nil [OF Cons.prems(1) fr] show ?thesis by simp
  next
    case (Inr es)
    obtain ys1 err1 w2 where rest: "store_handle_events clock r st sn rg acc n (Suc k) us
        (w1\<lparr>live := live w1 @ [es]\<rparr>) = ((ys1, err1), w2)"
      by (cases "store_handle_events clock r st sn rg acc n (Suc k) us
        (w1\<lparr>live := live w1 @ [es]\<rparr>)") auto
    from Cons.prems(2) u ev Inr rest have ys: "ys = (es, eo, xo, n) # ys1" and w': "w' = w2"
      by simp_all
    from yields_ok_single [OF Cons.prems(1) fr fresh [OF Inr]]
    have single: "yields_ok w [(es, eo, xo, n)] (w1\<lparr>live := live w1 @ [es]\<rparr>)" .
    then have "allocated (w1\<lparr>live := live w1 @ [es]\<rparr>)"
      unfolding yields_ok_def by (elim conjE)
    from Cons.IH [OF this rest] have "yields_ok (w1\<lparr>live := live w1 @ [es]\<rparr>) ys1 w2" .
    from yields_ok_trans [OF single this] show ?thesis
      by (simp add: ys w')
  qed
qed

lemma store_handle_record_ok:
  assumes "allocated w"
    and "store_handle_record deps expand jct multiline acc n k r w = ((ys, err), w')"
  shows "yields_ok w ys w'"
proof (cases "get_kinesis_stream_name_type_and_region_from_arn deps (eventSourceARN r)")
  case (Inl e)
  with assms(2) have "ys = []" "w' = w"
    by (simp_all add: store_handle_record_def)
  with yields_ok_nil [OF assms(1), of w] show ?thesis
    by (simp add: frame_def)
next
  case (Inr parts)
  obtain st sn rg where parts: "parts = (st, sn, rg)"
    by (cases parts)
  obtain us raised where us: "get_by_lines deps
      (StorageFactory_create (data (kinesis r)) jct expand multiline) 0 = (us, raised)"
    by (cases "get_by_lines deps (StorageFactory_create (data (kinesis r)) jct expand multiline) 0")
  obtain ys1 err1 w1 where ev: "store_handle_events (utcnow deps) r st sn rg acc n k us w =
      ((ys1, err1), w1)"
    by (cases "store_handle_events (utcnow deps) r st sn rg acc n k us w") auto
  from assms(2) have "ys = ys1" "w' = w1"
    by (cases err1; simp add: store_handle_record_def Inr parts us ev)+
  with store_handle_events_ok [OF assms(1) ev] show ?thesis by simp
qed

lemma store_handle_records_ok:
  "allocated w \<Longrightarrow>
   store_handle_records deps expand jct multiline acc n k rs w = ((ys, err), w')
    \<Longrightarrow> yields_ok w ys w'"
proof (induction rs arbitrary: w n k ys err w')
  case Nil
  then show ?case by (simp add: yields_ok_nil frame_def)
next
  case (Cons r rs)
  obtain ys1 err1 w1 where r: "store_handle_record deps expand jct multiline acc n k r w =
      ((ys1, err1), w1)"
    by (cases "store_handle_record deps expand jct multiline acc n k r w") auto
  from store_handle_record_ok [OF Cons.prems(1) r] have ok1: "yields_ok w ys1 w1" .
  show ?case
  proof (cases err1)
    case (Some e)
    with Cons.prems(2) r have "ys = ys1" "w' = w1" by simp_all
    with ok1 show ?thesis by simp
  next
    case None
    obtain ys2 err2 w2 where rest: "store_handle_records deps expand jct multiline acc (Suc n)
        (k + length ys1) rs w1 = ((ys2, err2), w2)"
      by (cases "store_handle_records deps expand jct multiline acc (Suc n)
        (k + length ys1) rs w1") auto
    from Cons.prems(2) r None rest have ys: "ys = ys1 @ ys2" and w': "w' = w2"
      by simp_all
    from ok1 have "allocated w1" by (simp add: yields_ok_def)
    from Cons.IH [OF this rest] have "yields_ok w1 ys2 w2" .
    from yields_ok_trans [OF ok1 this] show ?thesis by (simp add: ys w')
  qed
qed

text \<open>
  C7. In the store, from any world whose objects were allocated below \<open>next_addr\<close>: when
  the generator has ended, with or without an exception, the template is the object it was
  before; every document is live as it was yielded, so no later normalization has changed
  it; and an assignment to any dictionary of one yielded document changes neither the
  template, nor a document that was live before, nor any other yielded document.
\<close>

theorem documents_are_fresh_copies:
  assumes "allocated w"
    and "store_handle_kinesis_record deps event input_id expand jct multiline w = ((ys, err), w')"
  shows "template_obj w' = template_obj w \<and>
    live w' = live w @ map fst ys \<and>
    (\<forall>i < length ys. \<forall>a \<in> addrs (fst (ys ! i)). \<forall>k v.
        assign a k v (template_obj w') = template_obj w' \<and>
        (\<forall>d \<in> set (live w). assign a k v d = d) \<and>
        (\<forall>j < length ys. j \<noteq> i \<longrightarrow> assign a k v (fst (ys ! j)) = fst (ys ! j)))"
proof -
  have ok: "yields_ok w ys w'"
  proof (cases "get_account_id_from_arn deps input_id")
    case (Inl e)
    with assms(2) have "ys = []" "w' = w"
      by (simp_all add: store_handle_kinesis_record_def)
    with yields_ok_nil [OF assms(1), of w] show ?thesis
      by (simp add: frame_def)
  next
    case (Inr acc)
    with assms(2) have "store_handle_records deps expand jct multiline acc 0 0 (Records event) w =
        ((ys, err), w')"
      by (simp add: store_handle_kinesis_record_def)
    from store_handle_records_ok [OF assms(1) this] show ?thesis .
  qed
  then have tmpl: "template_obj w' = template_obj w" and live: "live w' = live w @ map fst ys"
    and sep: "separated (map fst ys)"
    and new: "\<And>y. y \<in> set ys \<Longrightarrow> addrs (fst y) \<subseteq> {next_addr w..<next_addr w'}"
    by (simp_all add: yields_ok_def)
  have "assign a k v (template_obj w') = template_obj w' \<and>
        (\<forall>d \<in> set (live w). assign a k v d = d) \<and>
        (\<forall>j < length ys. j \<noteq> i \<longrightarrow> assign a k v (fst (ys ! j)) = fst (ys ! j))"
    if i: "i < length ys" and a: "a \<in> addrs (fst (ys ! i))" for i a k v
  proof (intro conjI allI impI ballI)
    from new [of "ys ! i"] i a have fresh: "next_addr w \<le> a"
      by auto
    with assms(1) have "a \<notin> addrs (template_obj w)"
      by (fastforce simp add: allocated_def)
    then show "assign a k v (template_obj w') = template_obj w'"
      by (simp add: tmpl assign_id)
    show "assign a k v d = d" if "d \<in> set (live w)" for d
    proof -
      from assms(1) that fresh have "a \<notin> addrs d"
        by (fastforce simp add: allocated_def)
      then show ?thesis by (simp add: assign_id)
    qed
    show "assign a k v (fst (ys ! j)) = fst (ys ! j)" if "j < length ys" "j \<noteq> i" for j
    proof -
      from separated_nth [OF sep, of i j] i that
      have "addrs (fst (ys ! i)) \<inter> addrs (fst (ys ! j)) = {}"
        by simp
      with a have "a \<notin> addrs (fst (ys ! j))" by blast
      then show ?thesis by (simp add: assign_id)
    qed
  qed
  with tmpl live show ?thesis by blast
qed

theorem documents_are_fresh_copies_witness:
  "allocated example_world \<and>
   length (fst (fst (store_handle_kinesis_record example_deps
      \<lparr>Records = [example_record two_lines]\<rparr> example_arn () None None example_world))) = 2 \<and>
   template_obj (snd (store_handle_kinesis_record example_deps
      \<lparr>Records = [example_record two_lines]\<rparr> example_arn () None None example_world)) =
     template_obj example_world \<and>
   live (snd (store_handle_kinesis_record example_deps
      \<lparr>Records = [example_record two_lines]\<rparr> example_arn () None None example_world)) =
     live example_world @
     map fst (fst (fst (store_handle_kinesis_record example_deps
      \<lparr>Records = [example_record two_lines]\<rparr> example_arn () None None example_world)))"
proof -
  let ?run = "store_handle_kinesis_record example_deps
      \<lparr>Records = [example_record two_lines]\<rparr> example_arn () None None example_world"
  have alloc: "allocated example_world"
    by (simp add: allocated_def example_world_def example_template_obj_def)
  have len: "length (fst (fst ?run)) = 2"
    by (simp add: store_handle_kinesis_record_def example_deps_def account_id_of_arn_def
      example_arn_def store_handle_record_def StorageFactory_create_def
      example_get_by_lines_def two_lines_def example_record_def arn_parts_def
      store_es_event_def seq_def lift_def store_deepcopy_template_def store_dict_def
      store_setitem_def bind_def decode_utf8_def valid_utf8.simps in_range_def
      example_world_def example_template_obj_def Let_def)
  have run: "?run = ((fst (fst ?run), snd (fst ?run)), snd ?run)"
    by simp
  from documents_are_fresh_copies [OF alloc run] alloc len show ?thesis
    by simp
qed

end
